theory Spec2Isabelle
  imports Complex_Main
begin

section \<open>Python and numpy values\<close>

text \<open>
  The exceptions the modelled code can raise. The payload of \<open>KeyError\<close> is the missing
  key, the payload of \<open>ValueError\<close> the message. The spec's \<open>ShapeMismatch\<close> is numpy's
  \<open>ValueError\<close> for a value array that cannot be broadcast, its \<open>InvalidDensity\<close> the
  \<open>ValueError\<close> raised by \<open>prepare_network\<close>.
\<close>

datatype error =
    KeyError string
  | IndexError
  | ValueError string
  | TypeError
  | ZeroDivisionError

text \<open>Sequencing of fallible steps: the first exception ends the run.\<close>

definition ebind :: "error + 'a \<Rightarrow> ('a \<Rightarrow> error + 'b) \<Rightarrow> error + 'b" where
  "ebind m f = (case m of Inl e \<Rightarrow> Inl e | Inr a \<Rightarrow> f a)"

text \<open>
  A float64 entry: a finite value (idealised as a real number, rounding is not modelled),
  the two infinities, or NaN. Comparisons with NaN are false, as in IEEE 754.
\<close>

datatype fl = NaN | NegInf | Fin real | PosInf

fun fl_less :: "fl \<Rightarrow> fl \<Rightarrow> bool" where
  "fl_less (Fin a) (Fin b) = (a < b)"
| "fl_less NegInf (Fin b) = True"
| "fl_less NegInf PosInf = True"
| "fl_less (Fin a) PosInf = True"
| "fl_less _ _ = False"


fun fl_neg :: "fl \<Rightarrow> fl" where
  "fl_neg NaN = NaN"
| "fl_neg NegInf = PosInf"
| "fl_neg (Fin a) = Fin (- a)"
| "fl_neg PosInf = NegInf"

text \<open>\<open>np.zeros(size)\<close>: a negative size is refused.\<close>

definition np_zeros :: "'a \<Rightarrow> int \<Rightarrow> error + 'a list" where
  "np_zeros z sz =
     (if sz < 0 then Inl (ValueError ''negative dimensions are not allowed'')
      else Inr (replicate (nat sz) z))"

subsection \<open>Indexing\<close>

text \<open>
  The value stored under a key is what \<open>add_key\<close> was given: one integer (the key
  \<open>center\<close>) or an integer array. Indexing an array with the former gives one entry, with
  the latter an array of entries.
\<close>

datatype idx = Scalar int | Arr "int list"

datatype 'a sel = One 'a | Many "'a list"

text \<open>An index into an array of length \<open>n\<close>; a negative index counts from the end.\<close>

definition norm_index :: "nat \<Rightarrow> int \<Rightarrow> error + nat" where
  "norm_index n i =
     (if 0 \<le> i \<and> i < int n then Inr (nat i)
      else if - int n \<le> i \<and> i < 0 then Inr (nat (int n + i))
      else Inl IndexError)"

fun norm_indices :: "nat \<Rightarrow> int list \<Rightarrow> error + nat list" where
  "norm_indices n [] = Inr []"
| "norm_indices n (i # is) =
     ebind (norm_index n i) (\<lambda>k. ebind (norm_indices n is) (\<lambda>ks. Inr (k # ks)))"

text \<open>\<open>xs[ix]\<close>\<close>

definition getitem :: "'a list \<Rightarrow> idx \<Rightarrow> error + 'a sel" where
  "getitem xs ix =
     (case ix of
        Scalar i \<Rightarrow> ebind (norm_index (length xs) i) (\<lambda>k. Inr (One (xs ! k)))
      | Arr is \<Rightarrow> ebind (norm_indices (length xs) is) (\<lambda>ks. Inr (Many (map ((!) xs) ks))))"

text \<open>
  Broadcasting a one-dimensional value array to \<open>n\<close> places: an array of length \<open>n\<close> is
  taken as it is, an array of length 1 is repeated, anything else is a shape mismatch.
\<close>

definition broadcast_to :: "nat \<Rightarrow> 'a list \<Rightarrow> error + 'a list" where
  "broadcast_to n vs =
     (if length vs = n then Inr vs
      else if length vs = 1 then Inr (replicate n (hd vs))
      else Inl (ValueError ''shape mismatch''))"

text \<open>The writes of an indexed assignment, in order: a repeated index keeps the last.\<close>

fun scatter :: "'a list \<Rightarrow> (nat \<times> 'a) list \<Rightarrow> 'a list" where
  "scatter xs [] = xs"
| "scatter xs ((k, v) # kvs) = scatter (xs[k := v]) kvs"

text \<open>\<open>xs[ix] = vs\<close> for a one-dimensional value array \<open>vs\<close>.\<close>

definition setitem :: "'a list \<Rightarrow> idx \<Rightarrow> 'a list \<Rightarrow> error + 'a list" where
  "setitem xs ix vs =
     (case ix of
        Scalar i \<Rightarrow>
          ebind (norm_index (length xs) i) (\<lambda>k.
            if length vs = 1 then Inr (xs[k := hd vs])
            else Inl (ValueError ''setting an array element with a sequence.''))
      | Arr is \<Rightarrow>
          ebind (broadcast_to (length is) vs) (\<lambda>ws.
          ebind (norm_indices (length xs) is) (\<lambda>ks.
            Inr (scatter xs (zip ks ws)))))"



text \<open>The entries of an array at the places where a boolean array is True.\<close>

fun compress :: "bool list \<Rightarrow> 'a list \<Rightarrow> 'a list" where
  "compress (b # bs) (x # xs) = (if b then x # compress bs xs else compress bs xs)"
| "compress _ _ = []"

text \<open>\<open>xs[mask]\<close> for a boolean array \<open>mask\<close>, which must have the length of \<open>xs\<close>.\<close>

definition mask_select :: "'a list \<Rightarrow> bool list \<Rightarrow> error + 'a list" where
  "mask_select xs m =
     (if length m = length xs then Inr (compress m xs) else Inl IndexError)"

text \<open>
  Two one-dimensional operands of an elementwise operation, paired after broadcasting:
  equal lengths pair up, an operand of length 1 is repeated.
\<close>

definition np_broadcast2 :: "'a list \<Rightarrow> 'b list \<Rightarrow> error + ('a \<times> 'b) list" where
  "np_broadcast2 xs ys =
     (if length xs = length ys then Inr (zip xs ys)
      else if length xs = 1 then Inr (map (\<lambda>y. (hd xs, y)) ys)
      else if length ys = 1 then Inr (map (\<lambda>x. (x, hd ys)) xs)
      else Inl (ValueError ''operands could not be broadcast together''))"

text \<open>What the code expects of an indexed read: one entry, or an array.\<close>

definition the_one :: "'a sel \<Rightarrow> error + 'a" where
  "the_one r = (case r of One a \<Rightarrow> Inr a | Many as \<Rightarrow> Inl TypeError)"

definition the_many :: "'a sel \<Rightarrow> error + 'a list" where
  "the_many r = (case r of One a \<Rightarrow> Inl TypeError | Many as \<Rightarrow> Inr as)"

definition the_arr :: "idx \<Rightarrow> error + int list" where
  "the_arr ix = (case ix of Scalar i \<Rightarrow> Inl TypeError | Arr is \<Rightarrow> Inr is)"

section \<open>The class Vehicles (vehicles.py)\<close>

datatype point = Point (px: real) (py: real)

text \<open>
  Modelled from the spec: \<open>geometry.extract_point_array\<close> is not among the sources. The
  store holds "per-vehicle coordinates/points": the coordinate array has one row, x and
  y, for each point.
\<close>

definition extract_point_array :: "point list \<Rightarrow> (real \<times> real) list" where
  "extract_point_array ps = map (\<lambda>p. (px p, py p)) ps"

record 'g vehicles =
  count :: nat
  points :: "point list"
  coordinates :: "(real \<times> real) list"
  graphs :: "'g list option"
  pathlosses :: "fl list"
  distances :: "fl list"
  nlos :: "bool list"
  idxs :: "string \<rightharpoonup> idx"


definition allocate :: "'g vehicles \<Rightarrow> int \<Rightarrow> error + 'g vehicles" where
  "allocate self sz =
     ebind (np_zeros (Fin 0) sz) (\<lambda>pl.
     ebind (np_zeros (Fin 0) sz) (\<lambda>ds.
     ebind (np_zeros False sz) (\<lambda>nl.
       Inr (self\<lparr>pathlosses := pl, distances := ds, nlos := nl\<rparr>))))"

definition add_key :: "'g vehicles \<Rightarrow> string \<Rightarrow> idx \<Rightarrow> 'g vehicles" where
  "add_key self key val = self\<lparr>idxs := (idxs self)(key \<mapsto> val)\<rparr>"

text \<open>\<open>self.idxs[key]\<close>\<close>

definition get_idxs :: "'g vehicles \<Rightarrow> string \<Rightarrow> error + idx" where
  "get_idxs self key = (case idxs self key of None \<Rightarrow> Inl (KeyError key) | Some ix \<Rightarrow> Inr ix)"

definition get :: "'g vehicles \<Rightarrow> string option \<Rightarrow> error + (real \<times> real) sel" where
  "get self key =
     (if key = None \<or> key = Some ''all'' then Inr (Many (coordinates self))
      else ebind (get_idxs self (the key)) (\<lambda>ix. getitem (coordinates self) ix))"

definition get_points :: "'g vehicles \<Rightarrow> string option \<Rightarrow> error + point sel" where
  "get_points self key =
     (case key of
        None \<Rightarrow> Inr (Many (points self))
      | Some k \<Rightarrow> ebind (get_idxs self k) (\<lambda>ix. getitem (points self) ix))"

text \<open>
  \<open>graphs\<close> is \<open>None\<close> unless the constructor was given graphs; \<open>None[...]\<close> is a
  \<open>TypeError\<close>, raised after the key has been looked up.
\<close>

definition get_graph :: "'g vehicles \<Rightarrow> string option \<Rightarrow> error + 'g sel option" where
  "get_graph self key =
     (case key of
        None \<Rightarrow> Inr (map_option Many (graphs self))
      | Some k \<Rightarrow>
          ebind (get_idxs self k) (\<lambda>ix.
            case graphs self of
              None \<Rightarrow> Inl TypeError
            | Some gs \<Rightarrow> ebind (getitem gs ix) (\<lambda>r. Inr (Some r))))"

definition set_pathlosses :: "'g vehicles \<Rightarrow> string \<Rightarrow> fl list \<Rightarrow> error + 'g vehicles" where
  "set_pathlosses self key vals =
     ebind (get_idxs self key) (\<lambda>ix.
     ebind (setitem (pathlosses self) ix vals) (\<lambda>pl.
       Inr (self\<lparr>pathlosses := pl\<rparr>)))"

definition get_pathlosses :: "'g vehicles \<Rightarrow> string option \<Rightarrow> error + fl sel" where
  "get_pathlosses self key =
     (if key = None \<or> key = Some ''all'' then Inr (Many (pathlosses self))
      else ebind (get_idxs self (the key)) (\<lambda>ix. getitem (pathlosses self) ix))"

definition set_distances :: "'g vehicles \<Rightarrow> string \<Rightarrow> fl list \<Rightarrow> error + 'g vehicles" where
  "set_distances self key vals =
     ebind (get_idxs self key) (\<lambda>ix.
     ebind (setitem (distances self) ix vals) (\<lambda>ds.
       Inr (self\<lparr>distances := ds\<rparr>)))"

definition get_distances :: "'g vehicles \<Rightarrow> string option \<Rightarrow> error + fl sel" where
  "get_distances self key =
     (case key of
        None \<Rightarrow> Inr (Many (distances self))
      | Some k \<Rightarrow> ebind (get_idxs self k) (\<lambda>ix. getitem (distances self) ix))"

section \<open>Vehicle placement (vehicles.py)\<close>

text \<open>
  numpy's global random generator, as the uniform samples of \<open>[0, 1)\<close> it will hand out:
  \<open>random_sample(n)\<close> takes the next \<open>n\<close> of them.
\<close>

type_synonym rng = "nat \<Rightarrow> real"








subsection \<open>Graphs\<close>

text \<open>
  The nodes of a vehicle's graph: the intersections of the street network, which carry
  OpenStreetMap's integer ids, and the vehicle node, named \<open>'v' + str(iteration)\<close>.
\<close>

datatype node = Osm int | Named string




text \<open>The attributes of an edge of a vehicle's graph.\<close>

record 'ls edge_attr =
  e_geometry :: 'ls
  e_length :: real
  is_veh_edge :: bool

text \<open>
  A \<open>networkx.MultiGraph\<close> with the graph attribute \<open>node_veh\<close>: its nodes in the order
  they were added, each with its attributes if it was given any (for the vehicle node
  the point, whose coordinates are the attributes \<open>x\<close> and \<open>y\<close>), and its edges, which may
  be parallel.
\<close>

record 'ls veh_graph =
  node_veh :: node
  nodes :: "(node \<times> point option) list"
  edges :: "(node \<times> node \<times> 'ls edge_attr) list"





subsection \<open>Geometry\<close>


text \<open>\<open>xs[i]\<close> on a Python list or a one-dimensional array.\<close>

definition py_getitem :: "'a list \<Rightarrow> int \<Rightarrow> error + 'a" where
  "py_getitem xs i = ebind (norm_index (length xs) i) (\<lambda>k. Inr (xs ! k))"


subsection \<open>Points and streets\<close>









section \<open>Single-center simulation (main_sim)\<close>

text \<open>
  The modules \<open>propagation\<close>, \<open>geometry\<close> and \<open>pathloss\<close> are not among the
  sources. \<open>main_sim\<close> and \<open>main_sim_multi\<close> take the functions they call there as
  parameters, with the arguments of the calls: the center finder, the NLOS, OLOS and
  orthogonality classifiers and the three pathloss functions. A classifier returns one
  flag for each vehicle (or pair) it is given; what happens when it does not is part of
  the model, through numpy's checks on the arrays it returns.
\<close>

text \<open>
  The dictionary \<open>network\<close> that \<open>prepare_network\<close> returns and the simulations read.
\<close>

record ('g, 'b, 'w, 's) network =
  n_graph_streets :: 's
  n_graph_streets_wave :: 'w
  n_gdf_buildings :: 'b
  n_vehs :: "'g vehicles"

record ('g, 'b, 'w) ext =
  find_center_veh :: "(real \<times> real) list \<Rightarrow> int"
  veh_cons_are_nlos :: "point \<Rightarrow> point list \<Rightarrow> 'b \<Rightarrow> bool list"
  veh_cons_are_nlos_all :: "point list \<Rightarrow> 'b \<Rightarrow> real option \<Rightarrow> bool list"
  veh_cons_are_olos :: "point \<Rightarrow> point list \<Rightarrow> real \<Rightarrow> bool list"
  check_if_cons_orthogonal :: "'w \<Rightarrow> 'g \<Rightarrow> 'g list \<Rightarrow> real \<Rightarrow> bool list \<times> (real \<times> real) list"
  pathloss_olos :: "real list \<Rightarrow> fl list"
  pathloss_los :: "real list \<Rightarrow> fl list"
  pathloss_nlos :: "real list \<Rightarrow> real list \<Rightarrow> fl list"

definition euclid :: "real \<times> real \<Rightarrow> real \<times> real \<Rightarrow> real" where
  "euclid a b = sqrt ((fst a - fst b)\<^sup>2 + (snd a - snd b)\<^sup>2)"

text \<open>Lines 153 to 165: allocation, the center vehicle, the keys \<open>center\<close> and \<open>other\<close>.\<close>

definition main_sim_init ::
  "('g, 'b, 'w) ext \<Rightarrow> ('g, 'b, 'w, 's) network \<Rightarrow> error + 'g vehicles \<times> int list" where
  "main_sim_init ext net =
     (let vehs = n_vehs net;
          count_veh = count vehs
      in
      ebind (allocate vehs (int count_veh)) (\<lambda>vehs.
      ebind (ebind (get vehs None) the_many) (\<lambda>coords.
      let idx_center_veh = find_center_veh ext coords;
          idxs_other_vehs = filter (\<lambda>i. i \<noteq> idx_center_veh) (map int [0..<count_veh]);
          vehs = add_key vehs ''center'' (Scalar idx_center_veh);
          vehs = add_key vehs ''other'' (Arr idxs_other_vehs)
      in Inr (vehs, idxs_other_vehs))))"

text \<open>Lines 167 to 175: NLOS against OLOS/LOS.\<close>

definition main_sim_nlos ::
  "('g, 'b, 'w) ext \<Rightarrow> ('g, 'b, 'w, 's) network \<Rightarrow> 'g vehicles \<Rightarrow> int list \<Rightarrow> error + 'g vehicles" where
  "main_sim_nlos ext net vehs idxs_other_vehs =
     ebind (ebind (get_points vehs (Some ''center'')) the_one) (\<lambda>p_center.
     ebind (ebind (get_points vehs (Some ''other'')) the_many) (\<lambda>p_other.
     let is_nlos = veh_cons_are_nlos ext p_center p_other (n_gdf_buildings net) in
     ebind (mask_select idxs_other_vehs is_nlos) (\<lambda>idxs_nlos.
     let vehs = add_key vehs ''nlos'' (Arr idxs_nlos);
         is_olos_los = map Not is_nlos
     in
     ebind (mask_select idxs_other_vehs is_olos_los) (\<lambda>idxs_olos_los.
     Inr (add_key vehs ''olos_los'' (Arr idxs_olos_los))))))"

text \<open>Lines 177 to 185: OLOS against LOS, with a margin of 2.\<close>

definition main_sim_olos ::
  "('g, 'b, 'w) ext \<Rightarrow> 'g vehicles \<Rightarrow> error + 'g vehicles \<times> bool list \<times> bool list" where
  "main_sim_olos ext vehs =
     ebind (ebind (get_points vehs (Some ''center'')) the_one) (\<lambda>p_center.
     ebind (ebind (get_points vehs (Some ''olos_los'')) the_many) (\<lambda>p_olos_los.
     let is_olos = veh_cons_are_olos ext p_center p_olos_los 2;
         is_los = map Not is_olos
     in
     ebind (ebind (ebind (get_idxs vehs ''olos_los'') the_arr) (\<lambda>ol. mask_select ol is_olos))
       (\<lambda>idxs_olos.
     let vehs = add_key vehs ''olos'' (Arr idxs_olos) in
     ebind (ebind (ebind (get_idxs vehs ''olos_los'') the_arr) (\<lambda>ol. mask_select ol is_los))
       (\<lambda>idxs_los.
     Inr (add_key vehs ''los'' (Arr idxs_los), is_olos, is_los)))))"

text \<open>Lines 187 to 199: orthogonal against parallel, with \<open>max_angle = pi\<close>.\<close>

definition main_sim_orth ::
  "('g, 'b, 'w) ext \<Rightarrow> ('g, 'b, 'w, 's) network \<Rightarrow> 'g vehicles \<Rightarrow>
     error + 'g vehicles \<times> bool list \<times> bool list \<times> (real \<times> real) list" where
  "main_sim_orth ext net vehs =
     ebind (ebind (get_graph vehs (Some ''center''))
             (\<lambda>r. case r of None \<Rightarrow> Inl TypeError | Some g \<Rightarrow> the_one g)) (\<lambda>g_center.
     ebind (ebind (get_graph vehs (Some ''nlos''))
             (\<lambda>r. case r of None \<Rightarrow> Inl TypeError | Some g \<Rightarrow> the_many g)) (\<lambda>g_nlos.
     let (is_orthogonal, coords_intersections) =
           check_if_cons_orthogonal ext (n_graph_streets_wave net) g_center g_nlos pi;
         is_parallel = map Not is_orthogonal
     in
     ebind (ebind (ebind (get_idxs vehs ''nlos'') the_arr) (\<lambda>nl. mask_select nl is_orthogonal))
       (\<lambda>idxs_orth.
     let vehs = add_key vehs ''orth'' (Arr idxs_orth) in
     ebind (ebind (ebind (get_idxs vehs ''nlos'') the_arr) (\<lambda>nl. mask_select nl is_parallel))
       (\<lambda>idxs_par.
     Inr (add_key vehs ''par'' (Arr idxs_par), is_orthogonal, is_parallel,
          coords_intersections)))))"

text \<open>
  Lines 201 to 217: the pathlosses of the OLOS and LOS vehicles, stored negated.
  \<open>vehs.get('olos_los')\<close> is evaluated twice and \<open>vehs.get('center')\<close> twice; both reads
  give the same rows.
\<close>

definition main_sim_pl_olos_los ::
  "('g, 'b, 'w) ext \<Rightarrow> 'g vehicles \<Rightarrow> bool list \<Rightarrow> bool list \<Rightarrow> error + 'g vehicles" where
  "main_sim_pl_olos_los ext vehs is_olos is_los =
     ebind (ebind (get vehs (Some ''olos_los'')) the_many) (\<lambda>c_olos_los.
     ebind (ebind (get vehs (Some ''center'')) the_one) (\<lambda>c_center.
     let distances_olos_los = map (\<lambda>c. euclid c c_center) c_olos_los in
     ebind (mask_select distances_olos_los is_olos) (\<lambda>d_olos.
     let pathlosses_olos = map fl_neg (pathloss_olos ext d_olos) in
     ebind (set_pathlosses vehs ''olos'' pathlosses_olos) (\<lambda>vehs.
     ebind (mask_select distances_olos_los is_los) (\<lambda>d_los.
     let pathlosses_los = map fl_neg (pathloss_los ext d_los) in
     set_pathlosses vehs ''los'' pathlosses_los)))))"

text \<open>
  Lines 219 to 237: the pathlosses of the orthogonal NLOS vehicles, by way of the
  intersection, and infinity for the parallel ones.
\<close>

definition main_sim_pl_nlos ::
  "('g, 'b, 'w) ext \<Rightarrow> 'g vehicles \<Rightarrow> bool list \<Rightarrow> bool list \<Rightarrow> (real \<times> real) list \<Rightarrow>
     error + 'g vehicles" where
  "main_sim_pl_nlos ext vehs is_orthogonal is_parallel coords_intersections =
     ebind (ebind (get vehs (Some ''orth'')) the_many) (\<lambda>c_orth.
     ebind (mask_select coords_intersections is_orthogonal) (\<lambda>c_int.
     ebind (np_broadcast2 c_orth c_int) (\<lambda>tx.
     let distances_orth_tx = map (\<lambda>(a, b). euclid a b) tx in
     ebind (ebind (get vehs (Some ''center'')) the_one) (\<lambda>c_center.
     let distances_orth_rx = map (\<lambda>c. euclid c_center c) c_int;
         pathlosses_orth = pathloss_nlos ext distances_orth_rx distances_orth_tx
     in
     ebind (set_pathlosses vehs ''orth'' pathlosses_orth) (\<lambda>vehs.
     let pathlosses_par = replicate (length (filter id is_parallel)) PosInf in
     set_pathlosses vehs ''par'' pathlosses_par)))))"

text \<open>Lines 239 to 246: in range is a stored pathloss below \<open>max_pl\<close>.\<close>

definition main_sim_range :: "'g vehicles \<Rightarrow> real \<Rightarrow> error + 'g vehicles" where
  "main_sim_range vehs max_pl =
     ebind (ebind (get_pathlosses vehs (Some ''other'')) the_many) (\<lambda>pl_other.
     let idxs_in_range = map (\<lambda>p. fl_less p (Fin max_pl)) pl_other;
         idxs_out_range = map Not idxs_in_range
     in
     ebind (ebind (ebind (get_idxs vehs ''other'') the_arr) (\<lambda>ot. mask_select ot idxs_in_range))
       (\<lambda>in_range.
     let vehs = add_key vehs ''in_range'' (Arr in_range) in
     ebind (ebind (ebind (get_idxs vehs ''other'') the_arr) (\<lambda>ot. mask_select ot idxs_out_range))
       (\<lambda>out_range.
     Inr (add_key vehs ''out_range'' (Arr out_range)))))"

text \<open>The store after lines 153 to 199, and the local arrays the later lines use.\<close>

definition main_sim_conditions ::
  "('g, 'b, 'w) ext \<Rightarrow> ('g, 'b, 'w, 's) network \<Rightarrow>
     error + 'g vehicles \<times> (bool list \<times> bool list) \<times> (bool list \<times> bool list \<times> (real \<times> real) list)" where
  "main_sim_conditions ext net =
     ebind (main_sim_init ext net) (\<lambda>(vehs, idxs_other_vehs).
     ebind (main_sim_nlos ext net vehs idxs_other_vehs) (\<lambda>vehs.
     ebind (main_sim_olos ext vehs) (\<lambda>(vehs, is_olos, is_los).
     ebind (main_sim_orth ext net vehs) (\<lambda>(vehs, is_orthogonal, is_parallel, coords_intersections).
     Inr (vehs, (is_olos, is_los), (is_orthogonal, is_parallel, coords_intersections))))))"

text \<open>\<open>main_sim(network, max_pl=150)\<close>; the result is the store it has filled.\<close>

definition main_sim ::
  "('g, 'b, 'w) ext \<Rightarrow> ('g, 'b, 'w, 's) network \<Rightarrow> real \<Rightarrow> error + 'g vehicles" where
  "main_sim ext net max_pl =
     ebind (main_sim_conditions ext net)
       (\<lambda>(vehs, (is_olos, is_los), (is_orthogonal, is_parallel, coords_intersections)).
     ebind (main_sim_pl_olos_los ext vehs is_olos is_los) (\<lambda>vehs.
     ebind (main_sim_pl_nlos ext vehs is_orthogonal is_parallel coords_intersections) (\<lambda>vehs.
     main_sim_range vehs max_pl)))"

section \<open>Network preparation (prepare_network)\<close>







section \<open>All-pairs simulation (main_sim_multi)\<close>

subsection \<open>Condensed distance matrices\<close>

text \<open>
  The unordered pairs of \<open>n\<close> points in the order of scipy's condensed form: \<open>(0, 1)\<close>,
  \<open>(0, 2)\<close>, ..., \<open>(0, n - 1)\<close>, \<open>(1, 2)\<close>, ..., \<open>(n - 2, n - 1)\<close>.
\<close>

definition pairs :: "nat \<Rightarrow> (nat \<times> nat) list" where
  "pairs n = concat (map (\<lambda>i. map (\<lambda>j. (i, j)) [Suc i..<n]) [0..<n])"

text \<open>\<open>scipy.spatial.distance.pdist(X)\<close>: the Euclidean distance of every pair.\<close>

definition pdist :: "(real \<times> real) list \<Rightarrow> real list" where
  "pdist X = map (\<lambda>(i, j). euclid (X ! i) (X ! j)) (pairs (length X))"

text \<open>
  The side of the square matrix of a condensed vector of length \<open>s\<close>: the \<open>d\<close> with
  \<open>d * (d - 1) = 2 * s\<close>, and 1 for the empty vector; a \<open>ValueError\<close> if there is none.
\<close>

definition squareform_dim :: "nat \<Rightarrow> error + nat" where
  "squareform_dim s =
     (if s = 0 then Inr 1
      else case find (\<lambda>d. d * (d - 1) = 2 * s) [0..<s + 2] of
             None \<Rightarrow> Inl (ValueError ''Incompatible vector size'')
           | Some d \<Rightarrow> Inr d)"

text \<open>
  \<open>scipy.spatial.distance.squareform(v)\<close> for a condensed vector: the symmetric matrix
  that holds the entry of the pair \<open>(i, j)\<close> at \<open>[i][j]\<close> and \<open>[j][i]\<close>, and zero (here
  \<open>z\<close>) on the diagonal.
\<close>

definition squareform :: "'a \<Rightarrow> 'a list \<Rightarrow> error + 'a list list" where
  "squareform z v =
     ebind (squareform_dim (length v)) (\<lambda>d.
       Inr (map (\<lambda>i. map (\<lambda>j.
              case map_of (zip (pairs d) v) (min i j, max i j) of
                None \<Rightarrow> z
              | Some a \<Rightarrow> a) [0..<d]) [0..<d]))"

subsection \<open>Graphs and their components\<close>

text \<open>
  \<open>networkx.from_numpy_matrix(A)\<close> for a boolean matrix: the nodes \<open>0, ..., d - 1\<close> and an
  edge for every True entry.
\<close>

record graph =
  g_nodes :: "nat list"
  g_edges :: "(nat \<times> nat) list"

definition from_numpy_matrix :: "bool list list \<Rightarrow> graph" where
  "from_numpy_matrix A =
     \<lparr> g_nodes = [0..<length A],
       g_edges = concat (map (\<lambda>i. map (\<lambda>j. (i, j))
                   (filter (\<lambda>j. A ! i ! j) [0..<length (A ! i)])) [0..<length A]) \<rparr>"

text \<open>
  The breadth-first search of networkx, by what it returns: the nodes reachable from
  \<open>v\<close>.
\<close>

definition plain_bfs :: "graph \<Rightarrow> nat \<Rightarrow> nat set" where
  "plain_bfs G v = insert v ((set (g_edges G))\<^sup>+ `` {v})"

text \<open>
  \<open>networkx.connected_components(G)\<close>: the component of every node that no earlier
  component contains, in the order of the nodes.
\<close>

fun components_from :: "graph \<Rightarrow> nat set \<Rightarrow> nat list \<Rightarrow> nat set list" where
  "components_from G seen [] = []"
| "components_from G seen (v # vs) =
     (if v \<in> seen then components_from G seen vs
      else let c = plain_bfs G v in c # components_from G (seen \<union> c) vs)"

definition connected_components :: "graph \<Rightarrow> nat set list" where
  "connected_components G = components_from G {} (g_nodes G)"

text \<open>\<open>max(clusters, key=len)\<close>: the first of the largest.\<close>

fun max_first :: "nat set \<Rightarrow> nat set list \<Rightarrow> nat set" where
  "max_first c [] = c"
| "max_first c (x # xs) = max_first (if card c < card x then x else c) xs"

definition max_by_len :: "nat set list \<Rightarrow> error + nat set" where
  "max_by_len clusters =
     (case clusters of
        [] \<Rightarrow> Inl (ValueError ''max() arg is an empty sequence'')
      | c # cs \<Rightarrow> Inr (max_first c cs))"

text \<open>\<open>np.where(mask)[0]\<close>\<close>

definition np_where :: "bool list \<Rightarrow> int list" where
  "np_where m = compress m (map int [0..<length m])"

subsection \<open>The simulation\<close>

text \<open>
  Lines 123 to 130: the pairs in range. \<open>distances\<close> is a local array here, not the one of
  the store.
\<close>

definition main_sim_multi_in_range ::
  "'g vehicles \<Rightarrow> bool list \<Rightarrow> real \<Rightarrow> real \<Rightarrow> nat \<Rightarrow> error + bool list" where
  "main_sim_multi_in_range vehs is_nlos max_dist_olos_los max_dist_nlos count_cond =
     (let is_olos_los = map Not is_nlos;
          idxs_olos_los = np_where is_olos_los;
          idxs_nlos = np_where is_nlos;
          distances = pdist (coordinates vehs)
      in
      ebind (ebind (getitem distances (Arr idxs_olos_los)) the_many) (\<lambda>d_olos_los.
      ebind (mask_select idxs_olos_los (map (\<lambda>d. d < max_dist_olos_los) d_olos_los))
        (\<lambda>idxs_in_range_olos_los.
      ebind (ebind (getitem distances (Arr idxs_nlos)) the_many) (\<lambda>d_nlos.
      ebind (mask_select idxs_nlos (map (\<lambda>d. d < max_dist_nlos) d_nlos))
        (\<lambda>idxs_in_range_nlos.
      let idxs_in_range = idxs_in_range_olos_los @ idxs_in_range_nlos
      in Inr (map (\<lambda>k. int k \<in> set idxs_in_range) [0..<count_cond]))))))"

text \<open>
  Lines 131 to 147: the graph of the pairs in range, its largest component and the
  share of the vehicles in it. The nodes of the component are stored in ascending
  order; networkx fixes no order.
\<close>

definition main_sim_multi_cluster ::
  "'g vehicles \<Rightarrow> bool list \<Rightarrow> nat \<Rightarrow> error + real \<times> 'g vehicles" where
  "main_sim_multi_cluster vehs is_in_range count_veh =
     ebind (squareform False is_in_range) (\<lambda>is_in_range_matrix.
     let graph_cons = from_numpy_matrix is_in_range_matrix;
         clusters = connected_components graph_cons
     in
     ebind (max_by_len clusters) (\<lambda>cluster_max.
     ebind (if count_veh = 0 then Inl ZeroDivisionError
            else Inr (real (card cluster_max) / real count_veh)) (\<lambda>net_connectivity.
     let vehs = add_key vehs ''cluster_max'' (Arr (map int (sorted_list_of_set cluster_max)));
         not_cluster_max_nodes = filter (\<lambda>i. i \<notin> cluster_max) [0..<count_veh];
         vehs = add_key vehs ''not_cluster_max'' (Arr (map int not_cluster_max_nodes))
     in Inr (net_connectivity, vehs))))"

text \<open>\<open>main_sim_multi(network, max_dist_olos_los=250, max_dist_nlos=140)\<close>\<close>

definition main_sim_multi ::
  "('g, 'b, 'w) ext \<Rightarrow> ('g, 'b, 'w, 's) network \<Rightarrow> real \<Rightarrow> real \<Rightarrow> error + real \<times> 'g vehicles" where
  "main_sim_multi ext net max_dist_olos_los max_dist_nlos =
     (let vehs = n_vehs net;
          gdf_buildings = n_gdf_buildings net;
          count_veh = count vehs;
          max_dist = max max_dist_nlos max_dist_olos_los;
          count_cond = count_veh * (count_veh - 1) div 2
      in
      ebind (allocate vehs (int count_cond)) (\<lambda>vehs.
      ebind (ebind (get_points vehs None) the_many) (\<lambda>pts.
      let is_nlos = veh_cons_are_nlos_all ext pts gdf_buildings (Some max_dist) in
      ebind (main_sim_multi_in_range vehs is_nlos max_dist_olos_los max_dist_nlos count_cond)
        (\<lambda>is_in_range.
      main_sim_multi_cluster vehs is_in_range count_veh))))"

subsection \<open>The cutoff of the NLOS test\<close>

text \<open>
  Modelled from the spec: \<open>propagation.veh_cons_are_nlos_all\<close> is not among the sources.
  "A pair is NLOS iff the straight segment between the two vehicle points intersects at
  least one building polygon; an optional maximum-distance cutoff may skip the geometry
  test (treated as NLOS by default) for pairs whose straight-line distance already
  exceeds it." The intersection test itself is the parameter \<open>crosses\<close>; the pairs come in
  the condensed order.
\<close>

definition veh_cons_are_nlos_all_spec ::
  "(point \<Rightarrow> point \<Rightarrow> 'b \<Rightarrow> bool) \<Rightarrow> point list \<Rightarrow> 'b \<Rightarrow> real option \<Rightarrow> bool list" where
  "veh_cons_are_nlos_all_spec crosses ps buildings max_dist =
     map (\<lambda>(i, j).
            case max_dist of
              None \<Rightarrow> crosses (ps ! i) (ps ! j) buildings
            | Some m \<Rightarrow>
                if m < euclid (px (ps ! i), py (ps ! i)) (px (ps ! j), py (ps ! j)) then True
                else crosses (ps ! i) (ps ! j) buildings)
         (pairs (length ps))"

text \<open>
  The simulation without the optimization: \<open>main_sim_multi\<close> with the classifier called
  with no cutoff.
\<close>

definition main_sim_multi_no_cutoff ::
  "('g, 'b, 'w) ext \<Rightarrow> ('g, 'b, 'w, 's) network \<Rightarrow> real \<Rightarrow> real \<Rightarrow> error + real \<times> 'g vehicles" where
  "main_sim_multi_no_cutoff ext net max_dist_olos_los max_dist_nlos =
     (let vehs = n_vehs net;
          gdf_buildings = n_gdf_buildings net;
          count_veh = count vehs;
          count_cond = count_veh * (count_veh - 1) div 2
      in
      ebind (allocate vehs (int count_cond)) (\<lambda>vehs.
      ebind (ebind (get_points vehs None) the_many) (\<lambda>pts.
      let is_nlos = veh_cons_are_nlos_all ext pts gdf_buildings None in
      ebind (main_sim_multi_in_range vehs is_nlos max_dist_olos_los max_dist_nlos count_cond)
        (\<lambda>is_in_range.
      main_sim_multi_cluster vehs is_in_range count_veh))))"

section \<open>Example stores\<close>

text \<open>A store with three relation slots and no key, used by the examples below.\<close>

definition store0 :: "unit vehicles" where
  "store0 = \<lparr> count = 0, points = [], coordinates = [], graphs = None,
     pathlosses = [Fin 0, Fin 0, Fin 0], distances = [Fin 0, Fin 0, Fin 0],
     nlos = [False, False, False], idxs = Map.empty \<rparr>"

text \<open>
  Three vehicles on a line; the first is the center, the third is behind a building.
\<close>

definition ex_vehs :: "unit vehicles" where
  "ex_vehs = \<lparr> count = 3, points = [Point 0 0, Point 1 0, Point 5 0],
     coordinates = [(0, 0), (1, 0), (5, 0)], graphs = Some [(), (), ()],
     pathlosses = [], distances = [], nlos = [], idxs = Map.empty \<rparr>"

definition ex_net :: "(unit, unit, unit, unit) network" where
  "ex_net = \<lparr> n_graph_streets = (), n_graph_streets_wave = (), n_gdf_buildings = (), n_vehs = ex_vehs \<rparr>"

definition ex_ext :: "(unit, unit, unit) ext" where
  "ex_ext = \<lparr> find_center_veh = (\<lambda>cs. 0),
     veh_cons_are_nlos = (\<lambda>c ps b. map (\<lambda>p. 3 < px p) ps),
     veh_cons_are_nlos_all = (\<lambda>ps b m. []),
     veh_cons_are_olos = (\<lambda>c ps m. map (\<lambda>p. False) ps),
     check_if_cons_orthogonal = (\<lambda>w g gs a. (map (\<lambda>g. True) gs, map (\<lambda>g. (3, 0)) gs)),
     pathloss_olos = (\<lambda>ds. map (\<lambda>d. Fin 100) ds),
     pathloss_los = (\<lambda>ds. map (\<lambda>d. Fin 90) ds),
     pathloss_nlos = (\<lambda>rx tx. map (\<lambda>d. Fin 200) rx) \<rparr>"





text \<open>
  For the all-pairs mode the third vehicle is behind the building from either of the other
  two: a pair is obstructed when its second point lies beyond \<open>x = 3\<close>.
\<close>

definition ex_ext_multi :: "(unit, unit, unit) ext" where
  "ex_ext_multi = ex_ext\<lparr> veh_cons_are_nlos_all :=
     (\<lambda>ps b m. map (\<lambda>(i, j). 3 < px (ps ! j)) (pairs (length ps))) \<rparr>"

text \<open>
  No building is in the way in this variant, so that only the cutoff makes a pair NLOS.
\<close>

definition ex_ext_open :: "(unit, unit, unit) ext" where
  "ex_ext_open = ex_ext\<lparr> veh_cons_are_nlos_all :=
     veh_cons_are_nlos_all_spec (\<lambda>p q b. False) \<rparr>"

section \<open>Basic facts\<close>

lemma ebind_Inr [simp]: "ebind (Inr a) f = f a"
  by (simp add: ebind_def)

lemma ebind_Inl [simp]: "ebind (Inl e) f = Inl e"
  by (simp add: ebind_def)

lemma ebind_eq_Inr: "ebind m f = Inr b \<longleftrightarrow> (\<exists>a. m = Inr a \<and> f a = Inr b)"
  by (cases m) simp_all

subsection \<open>Indexing\<close>

lemma norm_index_Inr: "norm_index n i = Inr k \<Longrightarrow> k < n"
  by (auto simp: norm_index_def split: if_splits)

lemma norm_index_nat [simp]: "k < n \<Longrightarrow> norm_index n (int k) = Inr k"
  by (simp add: norm_index_def)


lemma norm_indices_map_int [simp]:
  "\<forall>k \<in> set ks. k < n \<Longrightarrow> norm_indices n (map int ks) = Inr ks"
  by (induction ks) simp_all

lemma length_scatter [simp]: "length (scatter xs kvs) = length xs"
  by (induction xs kvs rule: scatter.induct) simp_all



lemma norm_index_Inl: "norm_index n i = Inl e \<Longrightarrow> e = IndexError"
  by (auto simp: norm_index_def split: if_splits)

lemma norm_indices_Inl: "norm_indices n is = Inl e \<Longrightarrow> e = IndexError"
  by (induction "is") (auto simp: ebind_def dest: norm_index_Inl split: sum.splits)

lemma getitem_not_KeyError: "getitem xs ix \<noteq> Inl (KeyError k)"
  by (cases ix)
    (auto simp: getitem_def ebind_def dest: norm_index_Inl norm_indices_Inl split: sum.splits)

section \<open>The relation store\<close>

text \<open>
  C6, as stated, fails: \<open>allocate\<close> replaces the three arrays and does not touch
  \<open>idxs\<close>. A key registered before \<open>allocate\<close> is still readable afterwards.
\<close>

theorem allocate_invalidates_keys_counterexample:
  "ebind (allocate (add_key store0 ''k'' (Arr [0])) 1) (\<lambda>v. get_pathlosses v (Some ''k''))
     = Inr (Many [Fin 0])"
  by (simp add: store0_def allocate_def add_key_def np_zeros_def get_pathlosses_def get_idxs_def getitem_def norm_index_def)

text \<open>
  C6 (amended): for a size \<open>s \<ge> 0\<close>, \<open>allocate(s)\<close> replaces the pathloss, distance and
  nlos arrays by arrays of length \<open>s\<close> filled with 0.0, 0.0 and False and changes nothing
  else (a negative size is numpy's ValueError). Every key registered before is registered
  afterwards with the same indices, and reading the pathlosses through it is the indexed
  read of the new array.
\<close>

theorem allocate_resizes_keeps_keys:
  "(0 \<le> s \<longrightarrow>
      allocate v s = Inr (v\<lparr>pathlosses := replicate (nat s) (Fin 0),
                               distances := replicate (nat s) (Fin 0),
                               nlos := replicate (nat s) False\<rparr>)) \<and>
   (s < 0 \<longrightarrow> allocate v s = Inl (ValueError ''negative dimensions are not allowed'')) \<and>
   (\<forall>v'. allocate v s = Inr v' \<longrightarrow>
      idxs v' = idxs v \<and> (\<forall>k. get_idxs v' k = get_idxs v k) \<and>
      (\<forall>k ix. idxs v k = Some ix \<longrightarrow> k \<noteq> ''all'' \<longrightarrow>
         get_pathlosses v' (Some k) = getitem (replicate (nat s) (Fin 0)) ix))"
  by (auto simp: allocate_def np_zeros_def get_idxs_def get_pathlosses_def)

text \<open>C6, witness: a store with one key, resized to two slots.\<close>

theorem allocate_resizes_keeps_keys_witness:
  "allocate (add_key store0 ''k'' (Arr [0])) 2
     = Inr ((add_key store0 ''k'' (Arr [0]))\<lparr>pathlosses := [Fin 0, Fin 0],
             distances := [Fin 0, Fin 0], nlos := [False, False]\<rparr>)"
  using allocate_resizes_keeps_keys [of 2 "add_key store0 ''k'' (Arr [0])"]
  by (simp add: numeral_2_eq_2)







text \<open>
  C10: \<open>get\<close> and \<open>get_pathlosses\<close> return the full array for the label \<open>all\<close> as for
  \<open>None\<close>, whatever is registered. \<open>get_points\<close>, \<open>get_graph\<close> and \<open>get_distances\<close>
  look \<open>all\<close> up like any key: a KeyError when no key of that name is registered, and the
  indexed read (never a KeyError) when one is.
\<close>

theorem all_label_special_only_for_get:
  "get v (Some ''all'') = get v None \<and>
   get v (Some ''all'') = Inr (Many (coordinates v)) \<and>
   get_pathlosses v (Some ''all'') = get_pathlosses v None \<and>
   get_pathlosses v (Some ''all'') = Inr (Many (pathlosses v)) \<and>
   (idxs v ''all'' = None \<longrightarrow>
      get_points v (Some ''all'') = Inl (KeyError ''all'') \<and>
      get_graph v (Some ''all'') = Inl (KeyError ''all'') \<and>
      get_distances v (Some ''all'') = Inl (KeyError ''all'')) \<and>
   (\<forall>ix. idxs v ''all'' = Some ix \<longrightarrow>
      get_points v (Some ''all'') = getitem (points v) ix \<and>
      get_distances v (Some ''all'') = getitem (distances v) ix \<and>
      get_graph v (Some ''all'') =
        (case graphs v of None \<Rightarrow> Inl TypeError
         | Some gs \<Rightarrow> ebind (getitem gs ix) (\<lambda>r. Inr (Some r))) \<and>
      (\<forall>k. get_points v (Some ''all'') \<noteq> Inl (KeyError k)) \<and>
      (\<forall>k. get_distances v (Some ''all'') \<noteq> Inl (KeyError k)) \<and>
      (\<forall>k. get_graph v (Some ''all'') \<noteq> Inl (KeyError k)))"
  by (auto simp: get_def get_pathlosses_def get_points_def get_graph_def get_distances_def
      get_idxs_def getitem_not_KeyError ebind_def split: option.splits sum.splits)

text \<open>C10, witness: the store without keys, and the same store with a key named \<open>all\<close>.\<close>

theorem all_label_special_only_for_get_witness:
  "get_points store0 (Some ''all'') = Inl (KeyError ''all'') \<and>
   get_distances store0 (Some ''all'') = Inl (KeyError ''all'') \<and>
   get_graph store0 (Some ''all'') = Inl (KeyError ''all'') \<and>
   get_pathlosses store0 (Some ''all'') = Inr (Many [Fin 0, Fin 0, Fin 0]) \<and>
   get_distances (add_key store0 ''all'' (Arr [1])) (Some ''all'') = Inr (Many [Fin 0]) \<and>
   get_pathlosses (add_key store0 ''all'' (Arr [1])) (Some ''all'') = Inr (Many [Fin 0, Fin 0, Fin 0])"
proof -
  have a: "idxs store0 ''all'' = None" by (simp add: store0_def)
  have b: "idxs (add_key store0 ''all'' (Arr [1])) ''all'' = Some (Arr [1])"
    by (simp add: add_key_def)
  have c: "getitem (distances (add_key store0 ''all'' (Arr [1]))) (Arr [1]) = Inr (Many [Fin 0])"
    by (simp add: add_key_def store0_def getitem_def norm_index_def)
  have p: "pathlosses store0 = [Fin 0, Fin 0, Fin 0]"
    "pathlosses (add_key store0 ''all'' (Arr [1])) = [Fin 0, Fin 0, Fin 0]"
    by (simp_all add: store0_def add_key_def)
  note t0 = all_label_special_only_for_get [of store0]
  note t1 = all_label_special_only_for_get [of "add_key store0 ''all'' (Arr [1])"]
  from t0 a have "get_points store0 (Some ''all'') = Inl (KeyError ''all'')"
    "get_distances store0 (Some ''all'') = Inl (KeyError ''all'')"
    "get_graph store0 (Some ''all'') = Inl (KeyError ''all'')"
    by blast+
  moreover from t0 have "get_pathlosses store0 (Some ''all'') = Inr (Many (pathlosses store0))"
    by blast
  then have "get_pathlosses store0 (Some ''all'') = Inr (Many [Fin 0, Fin 0, Fin 0])"
    by (simp only: p)
  moreover from t1 b
  have "get_distances (add_key store0 ''all'' (Arr [1])) (Some ''all'')
      = getitem (distances (add_key store0 ''all'' (Arr [1]))) (Arr [1])"
    by blast
  then have "get_distances (add_key store0 ''all'' (Arr [1])) (Some ''all'') = Inr (Many [Fin 0])"
    by (simp only: c)
  moreover from t1
  have "get_pathlosses (add_key store0 ''all'' (Arr [1])) (Some ''all'')
      = Inr (Many (pathlosses (add_key store0 ''all'' (Arr [1]))))"
    by blast
  then have "get_pathlosses (add_key store0 ''all'' (Arr [1])) (Some ''all'')
      = Inr (Many [Fin 0, Fin 0, Fin 0])"
    by (simp only: p)
  ultimately show ?thesis by simp
qed

subsection \<open>Boolean masks\<close>

lemma mask_select_Inr:
  "mask_select xs m = Inr ys \<longleftrightarrow> length m = length xs \<and> ys = compress m xs"
  by (auto simp: mask_select_def)

lemma set_compress_subset: "set (compress m xs) \<subseteq> set xs"
  by (induction m xs rule: compress.induct) auto

lemma distinct_compress: "distinct xs \<Longrightarrow> distinct (compress m xs)"
  by (induction m xs rule: compress.induct) (use set_compress_subset in fastforce)+

lemma compress_Not_union:
  "length m = length xs \<Longrightarrow> set (compress m xs) \<union> set (compress (map Not m) xs) = set xs"
  by (induction m xs rule: compress.induct) auto

lemma compress_Not_disjoint:
  "distinct xs \<Longrightarrow> set (compress m xs) \<inter> set (compress (map Not m) xs) = {}"
proof (induction m xs rule: compress.induct)
  case (1 b bs x xs)
  moreover have "x \<notin> set xs \<Longrightarrow> x \<notin> set (compress bs xs) \<and> x \<notin> set (compress (map Not bs) xs)"
    using set_compress_subset by fastforce
  ultimately show ?case by auto
qed simp_all


lemma compress_map_map_filter: "compress (map p (map f xs)) xs = filter (p \<circ> f) xs"
  by (induction xs) simp_all

lemma length_compress: "length (compress m xs) = length (filter id (take (length xs) m))"
  by (induction m xs rule: compress.induct) auto

subsection \<open>Reads and writes at nonnegative indices\<close>









lemma set_pathlosses_Inr:
  "set_pathlosses v k vs = Inr v' \<longleftrightarrow>
     (\<exists>ix pl. idxs v k = Some ix \<and> setitem (pathlosses v) ix vs = Inr pl \<and> v' = v\<lparr>pathlosses := pl\<rparr>)"
  by (auto simp: set_pathlosses_def get_idxs_def ebind_eq_Inr split: option.splits)

subsection \<open>The blocks of main_sim\<close>

lemma the_one_Inr [simp]: "the_one r = Inr a \<longleftrightarrow> r = One a"
  by (cases r) (auto simp: the_one_def)

lemma the_many_Inr [simp]: "the_many r = Inr as \<longleftrightarrow> r = Many as"
  by (cases r) (auto simp: the_many_def)

lemma the_arr_Inr [simp]: "the_arr ix = Inr is \<longleftrightarrow> ix = Arr is"
  by (cases ix) (auto simp: the_arr_def)

lemma get_idxs_Inr [simp]: "get_idxs v k = Inr ix \<longleftrightarrow> idxs v k = Some ix"
  by (auto simp: get_idxs_def split: option.splits)

lemma idxs_add_key [simp]: "idxs (add_key v k ix) = (idxs v)(k \<mapsto> ix)"
  by (simp add: add_key_def)

lemma fields_add_key [simp]:
  "count (add_key v k ix) = count v" "points (add_key v k ix) = points v"
  "coordinates (add_key v k ix) = coordinates v" "graphs (add_key v k ix) = graphs v"
  "pathlosses (add_key v k ix) = pathlosses v" "distances (add_key v k ix) = distances v"
  "nlos (add_key v k ix) = nlos v"
  by (simp_all add: add_key_def)

lemma main_sim_init_Inr:
  assumes "main_sim_init ext net = Inr (v, other)"
  shows "other = filter (\<lambda>i. i \<noteq> find_center_veh ext (coordinates (n_vehs net)))
                   (map int [0..<count (n_vehs net)])"
    and "idxs v = (idxs (n_vehs net))(''center'' \<mapsto> Scalar (find_center_veh ext (coordinates (n_vehs net))),
                    ''other'' \<mapsto> Arr other)"
    and "pathlosses v = replicate (count (n_vehs net)) (Fin 0)"
    and "count v = count (n_vehs net)"
  using assms
  by (auto simp: main_sim_init_def allocate_def np_zeros_def get_def Let_def ebind_eq_Inr)

lemma main_sim_nlos_Inr:
  assumes "main_sim_nlos ext net v other = Inr v'"
  shows "\<exists>m. length m = length other \<and>
           v' = add_key (add_key v ''nlos'' (Arr (compress m other)))
                  ''olos_los'' (Arr (compress (map Not m) other))"
  using assms
  by (auto simp: main_sim_nlos_def Let_def ebind_eq_Inr mask_select_Inr)

lemma main_sim_olos_Inr:
  assumes "main_sim_olos ext v = Inr (v', io, il)"
  shows "\<exists>ol. idxs v ''olos_los'' = Some (Arr ol) \<and> length io = length ol \<and> il = map Not io \<and>
           v' = add_key (add_key v ''olos'' (Arr (compress io ol))) ''los'' (Arr (compress il ol))"
  using assms
  by (auto simp: main_sim_olos_def Let_def ebind_eq_Inr mask_select_Inr)

lemma main_sim_orth_Inr:
  assumes "main_sim_orth ext net v = Inr (v', ior, ip, ci)"
  shows "\<exists>nl. idxs v ''nlos'' = Some (Arr nl) \<and> length ior = length nl \<and> ip = map Not ior \<and>
           v' = add_key (add_key v ''orth'' (Arr (compress ior nl))) ''par'' (Arr (compress ip nl))"
  using assms
  by (auto simp: main_sim_orth_def Let_def ebind_eq_Inr mask_select_Inr case_prod_beta)


lemma main_sim_conditions_Inr:
  assumes "main_sim_conditions ext net = Inr (v, (io, il), (ior, ip, ci))"
  defines "c \<equiv> find_center_veh ext (coordinates (n_vehs net))"
  defines "other \<equiv> filter (\<lambda>i. i \<noteq> c) (map int [0..<count (n_vehs net)])"
  shows "\<exists>m. length m = length other \<and>
           length io = length (compress (map Not m) other) \<and> il = map Not io \<and>
           length ior = length (compress m other) \<and> ip = map Not ior \<and>
           idxs v ''center'' = Some (Scalar c) \<and>
           idxs v ''other'' = Some (Arr other) \<and>
           idxs v ''nlos'' = Some (Arr (compress m other)) \<and>
           idxs v ''olos_los'' = Some (Arr (compress (map Not m) other)) \<and>
           idxs v ''olos'' = Some (Arr (compress io (compress (map Not m) other))) \<and>
           idxs v ''los'' = Some (Arr (compress (map Not io) (compress (map Not m) other))) \<and>
           idxs v ''orth'' = Some (Arr (compress ior (compress m other))) \<and>
           idxs v ''par'' = Some (Arr (compress (map Not ior) (compress m other))) \<and>
           pathlosses v = replicate (count (n_vehs net)) (Fin 0) \<and>
           count v = count (n_vehs net)"
proof -
  from assms(1) obtain v1 ot v2 v3 where
    1: "main_sim_init ext net = Inr (v1, ot)" and
    2: "main_sim_nlos ext net v1 ot = Inr v2" and
    3: "main_sim_olos ext v2 = Inr (v3, io, il)" and
    4: "main_sim_orth ext net v3 = Inr (v, ior, ip, ci)"
    by (auto simp: main_sim_conditions_def ebind_eq_Inr)
  note i = main_sim_init_Inr [OF 1, folded c_def, folded other_def]
  from main_sim_nlos_Inr [OF 2] i(1) obtain m where m: "length m = length other"
    and v2: "v2 = add_key (add_key v1 ''nlos'' (Arr (compress m other)))
                  ''olos_los'' (Arr (compress (map Not m) other))"
    by auto
  from main_sim_olos_Inr [OF 3] v2
  have io: "length io = length (compress (map Not m) other)" "il = map Not io"
    and v3: "v3 = add_key (add_key v2 ''olos'' (Arr (compress io (compress (map Not m) other))))
                  ''los'' (Arr (compress il (compress (map Not m) other)))"
    by auto
  from main_sim_orth_Inr [OF 4] v3 v2
  have ior: "length ior = length (compress m other)" "ip = map Not ior"
    and v: "v = add_key (add_key v3 ''orth'' (Arr (compress ior (compress m other))))
                  ''par'' (Arr (compress ip (compress m other)))"
    by auto
  show ?thesis
    by (rule exI [of _ m]) (simp add: m io ior v v3 v2 i)
qed

lemma main_sim_pl_olos_los_idxs:
  "main_sim_pl_olos_los ext v io il = Inr v' \<Longrightarrow> idxs v' = idxs v \<and> count v' = count v"
  by (auto simp: main_sim_pl_olos_los_def Let_def ebind_eq_Inr set_pathlosses_Inr)

lemma main_sim_pl_nlos_idxs:
  "main_sim_pl_nlos ext v ior ip ci = Inr v' \<Longrightarrow> idxs v' = idxs v \<and> count v' = count v"
  by (auto simp: main_sim_pl_nlos_def Let_def ebind_eq_Inr set_pathlosses_Inr)

lemma main_sim_range_Inr:
  assumes "main_sim_range v max_pl = Inr v'"
  shows "\<exists>ot pl. idxs v ''other'' = Some (Arr ot) \<and>
           getitem (pathlosses v) (Arr ot) = Inr (Many pl) \<and> length pl = length ot \<and>
           v' = add_key (add_key v ''in_range''
                  (Arr (compress (map (\<lambda>p. fl_less p (Fin max_pl)) pl) ot)))
                  ''out_range''
                  (Arr (compress (map Not (map (\<lambda>p. fl_less p (Fin max_pl)) pl)) ot))"
  using assms
  by (auto simp: main_sim_range_def get_pathlosses_def Let_def ebind_eq_Inr mask_select_Inr)

lemma main_sim_Inr:
  assumes "main_sim ext net max_pl = Inr v'"
  obtains v io il ior ip ci v1 v2 where
    "main_sim_conditions ext net = Inr (v, (io, il), (ior, ip, ci))"
    "main_sim_pl_olos_los ext v io il = Inr v1"
    "main_sim_pl_nlos ext v1 ior ip ci = Inr v2"
    "main_sim_range v2 max_pl = Inr v'"
  using assms by (auto simp: main_sim_def ebind_eq_Inr)

lemma main_sim_keys_kept:
  assumes "main_sim ext net max_pl = Inr v'"
  obtains v io il ior ip ci where
    "main_sim_conditions ext net = Inr (v, (io, il), (ior, ip, ci))"
    "count v' = count v"
    "\<And>k. k \<noteq> ''in_range'' \<Longrightarrow> k \<noteq> ''out_range'' \<Longrightarrow> idxs v' k = idxs v k"
proof -
  from assms obtain v io il ior ip ci v1 v2 where
    c: "main_sim_conditions ext net = Inr (v, (io, il), (ior, ip, ci))" and
    1: "main_sim_pl_olos_los ext v io il = Inr v1" and
    2: "main_sim_pl_nlos ext v1 ior ip ci = Inr v2" and
    3: "main_sim_range v2 max_pl = Inr v'"
    by (rule main_sim_Inr)
  from main_sim_range_Inr [OF 3] main_sim_pl_nlos_idxs [OF 2] main_sim_pl_olos_los_idxs [OF 1]
  have "count v' = count v"
    and "\<And>k. k \<noteq> ''in_range'' \<Longrightarrow> k \<noteq> ''out_range'' \<Longrightarrow> idxs v' k = idxs v k"
    by auto
  with c show thesis by (rule that)
qed

lemma partition_of_compress:
  assumes "distinct other" and "length m = length other"
    and "length io = length (compress (map Not m) other)"
    and "length ior = length (compress m other)"
  defines "nl \<equiv> compress m other" and "ol \<equiv> compress (map Not m) other"
  defines "olos \<equiv> compress io ol" and "los \<equiv> compress (map Not io) ol"
  defines "orth \<equiv> compress ior nl" and "par \<equiv> compress (map Not ior) nl"
  shows "distinct (los @ olos @ orth @ par)" and "set (los @ olos @ orth @ par) = set other"
    and "set olos \<inter> set los = {}" and "set olos \<union> set los = set ol"
    and "set orth \<inter> set par = {}" and "set orth \<union> set par = set nl"
    and "set ol \<inter> set nl = {}" and "set ol \<union> set nl = set other"
proof -
  have d: "distinct nl" "distinct ol" "distinct olos" "distinct los" "distinct orth" "distinct par"
    using assms(1) by (simp_all add: nl_def ol_def olos_def los_def orth_def par_def distinct_compress)
  have u1: "set nl \<union> set ol = set other"
    unfolding nl_def ol_def using assms(2) by (rule compress_Not_union)
  have i1: "set nl \<inter> set ol = {}"
    unfolding nl_def ol_def using assms(1) by (rule compress_Not_disjoint)
  have u2: "set olos \<union> set los = set ol"
    unfolding olos_def los_def using assms(3) by (simp add: ol_def compress_Not_union)
  have i2: "set olos \<inter> set los = {}"
    unfolding olos_def los_def using d(2) by (rule compress_Not_disjoint)
  have u3: "set orth \<union> set par = set nl"
    unfolding orth_def par_def using assms(4) by (simp add: nl_def compress_Not_union)
  have i3: "set orth \<inter> set par = {}"
    unfolding orth_def par_def using d(1) by (rule compress_Not_disjoint)
  show "set olos \<inter> set los = {}" "set olos \<union> set los = set ol"
    "set orth \<inter> set par = {}" "set orth \<union> set par = set nl"
    by (fact i2 u2 i3 u3)+
  show "set ol \<inter> set nl = {}" "set ol \<union> set nl = set other"
    using i1 u1 by blast+
  show "set (los @ olos @ orth @ par) = set other"
    using u1 u2 u3 by auto
  have "(set los \<union> set olos) \<inter> (set orth \<union> set par) = {}"
    using i1 u2 u3 by blast
  with d i2 i3 show "distinct (los @ olos @ orth @ par)"
    by auto
qed

section \<open>Single-center simulation\<close>

text \<open>
  C1: whenever \<open>main_sim\<close> gets through the classification (lines 153 to 199), and so
  whenever it returns, the keys of the store partition the other vehicles. \<open>other\<close>
  holds every vehicle index but the center, once each; every index of \<open>other\<close> lies in
  exactly one of \<open>los\<close>, \<open>olos\<close>, \<open>orth\<close> and \<open>par\<close>; \<open>olos\<close> and \<open>los\<close> are disjoint
  with union \<open>olos_los\<close>, \<open>orth\<close> and \<open>par\<close> are disjoint with union \<open>nlos\<close>, and
  \<open>olos_los\<close> and \<open>nlos\<close> are disjoint with union \<open>other\<close>.
\<close>

theorem main_sim_classification_partition:
  assumes "main_sim_conditions ext net = Inr (v, l1, l2) \<or> main_sim ext net max_pl = Inr v"
  shows "\<exists>c other nl ol olos los orth par.
           idxs v ''center'' = Some (Scalar c) \<and> idxs v ''other'' = Some (Arr other) \<and>
           idxs v ''nlos'' = Some (Arr nl) \<and> idxs v ''olos_los'' = Some (Arr ol) \<and>
           idxs v ''olos'' = Some (Arr olos) \<and> idxs v ''los'' = Some (Arr los) \<and>
           idxs v ''orth'' = Some (Arr orth) \<and> idxs v ''par'' = Some (Arr par) \<and>
           distinct other \<and> set other = int ` {0..<count v} - {c} \<and>
           distinct (los @ olos @ orth @ par) \<and> set (los @ olos @ orth @ par) = set other \<and>
           (\<forall>i \<in> set other. length (filter (\<lambda>s. i \<in> set s) [los, olos, orth, par]) = 1) \<and>
           set olos \<inter> set los = {} \<and> set olos \<union> set los = set ol \<and>
           set orth \<inter> set par = {} \<and> set orth \<union> set par = set nl \<and>
           set ol \<inter> set nl = {} \<and> set ol \<union> set nl = set other"
proof -
  from assms obtain v0 io il ior ip ci where
    c: "main_sim_conditions ext net = Inr (v0, (io, il), (ior, ip, ci))" and
    n: "count v = count v0" and
    k: "\<And>k. k \<noteq> ''in_range'' \<Longrightarrow> k \<noteq> ''out_range'' \<Longrightarrow> idxs v k = idxs v0 k"
  proof
    assume "main_sim_conditions ext net = Inr (v, l1, l2)"
    then show thesis by (cases l1, cases l2) (auto intro: that [of v])
  next
    assume "main_sim ext net max_pl = Inr v"
    then show thesis by (rule main_sim_keys_kept) (rule that)
  qed
  define c where "c = find_center_veh ext (coordinates (n_vehs net))"
  define other where "other = filter (\<lambda>i. i \<noteq> c) (map int [0..<count (n_vehs net)])"
  from main_sim_conditions_Inr [OF c, folded c_def, folded other_def]
  obtain m where m: "length m = length other"
    "length io = length (compress (map Not m) other)" "length ior = length (compress m other)"
    and keys: "idxs v0 ''center'' = Some (Scalar c)" "idxs v0 ''other'' = Some (Arr other)"
      "idxs v0 ''nlos'' = Some (Arr (compress m other))"
      "idxs v0 ''olos_los'' = Some (Arr (compress (map Not m) other))"
      "idxs v0 ''olos'' = Some (Arr (compress io (compress (map Not m) other)))"
      "idxs v0 ''los'' = Some (Arr (compress (map Not io) (compress (map Not m) other)))"
      "idxs v0 ''orth'' = Some (Arr (compress ior (compress m other)))"
      "idxs v0 ''par'' = Some (Arr (compress (map Not ior) (compress m other)))"
    and n0: "count v0 = count (n_vehs net)"
    by blast
  have keys': "idxs v ''center'' = Some (Scalar c)" "idxs v ''other'' = Some (Arr other)"
      "idxs v ''nlos'' = Some (Arr (compress m other))"
      "idxs v ''olos_los'' = Some (Arr (compress (map Not m) other))"
      "idxs v ''olos'' = Some (Arr (compress io (compress (map Not m) other)))"
      "idxs v ''los'' = Some (Arr (compress (map Not io) (compress (map Not m) other)))"
      "idxs v ''orth'' = Some (Arr (compress ior (compress m other)))"
      "idxs v ''par'' = Some (Arr (compress (map Not ior) (compress m other)))"
    using keys by (simp_all add: k)
  have d: "distinct other" by (simp add: other_def distinct_map)
  have s: "set other = int ` {0..<count v} - {c}"
    by (auto simp: other_def n n0)
  note p = partition_of_compress [OF d m]
  have one: "\<forall>i \<in> set other.
      length (filter (\<lambda>s. i \<in> set s)
        [compress (map Not io) (compress (map Not m) other),
         compress io (compress (map Not m) other),
         compress ior (compress m other),
         compress (map Not ior) (compress m other)]) = 1"
    using p(1,2) by auto
  show ?thesis
    apply (rule exI [of _ c], rule exI [of _ other])
    apply (rule exI [of _ "compress m other"], rule exI [of _ "compress (map Not m) other"])
    apply (rule exI [of _ "compress io (compress (map Not m) other)"])
    apply (rule exI [of _ "compress (map Not io) (compress (map Not m) other)"])
    apply (rule exI [of _ "compress ior (compress m other)"])
    apply (rule exI [of _ "compress (map Not ior) (compress m other)"])
    using keys' d s p one by (intro conjI) assumption+
qed


lemmas ex_defs = ex_ext_def ex_net_def ex_vehs_def
lemmas store_defs = allocate_def np_zeros_def get_def get_points_def get_graph_def get_idxs_def
  get_pathlosses_def set_pathlosses_def getitem_def setitem_def add_key_def mask_select_def
  broadcast_to_def np_broadcast2_def norm_index_def the_one_def the_many_def the_arr_def
lemmas main_sim_defs = main_sim_def main_sim_conditions_def main_sim_init_def main_sim_nlos_def
  main_sim_olos_def main_sim_orth_def main_sim_pl_olos_los_def main_sim_pl_nlos_def
  main_sim_range_def


text \<open>C1, witness: the run on the three example vehicles returns, with such keys.\<close>

theorem main_sim_classification_partition_witness:
  "\<exists>v other los olos orth par.
     main_sim ex_ext ex_net 150 = Inr v \<and>
     idxs v ''other'' = Some (Arr other) \<and> idxs v ''los'' = Some (Arr los) \<and>
     idxs v ''olos'' = Some (Arr olos) \<and> idxs v ''orth'' = Some (Arr orth) \<and>
     idxs v ''par'' = Some (Arr par) \<and>
     distinct (los @ olos @ orth @ par) \<and> set (los @ olos @ orth @ par) = set other"
proof -
  have "\<exists>v. main_sim ex_ext ex_net 150 = Inr v"
    by (simp add: main_sim_defs ex_defs store_defs Let_def upt_conv_Cons)
  then obtain v where v: "main_sim ex_ext ex_net 150 = Inr v" ..
  from main_sim_classification_partition [OF disjI2, OF v]
  obtain other los olos orth par where
    "idxs v ''other'' = Some (Arr other)" "idxs v ''los'' = Some (Arr los)"
    "idxs v ''olos'' = Some (Arr olos)" "idxs v ''orth'' = Some (Arr orth)"
    "idxs v ''par'' = Some (Arr par)"
    "distinct (los @ olos @ orth @ par)" "set (los @ olos @ orth @ par) = set other"
    by (elim exE conjE)
  with v show ?thesis by (intro exI conjI)
qed

subsection \<open>Stored pathlosses\<close>







subsection \<open>Cumulative sums and the inverse of the distribution function\<close>











section \<open>Street selection\<close>




subsection \<open>The graph of one vehicle\<close>

lemma py_getitem_Inr: "py_getitem xs i = Inr x \<Longrightarrow> x \<in> set xs"
  by (auto simp: py_getitem_def ebind_eq_Inr dest: norm_index_Inr)

lemma py_getitem_nat [simp]: "k < length xs \<Longrightarrow> py_getitem xs (int k) = Inr (xs ! k)"
  by (simp add: py_getitem_def)













section \<open>Vehicle graphs\<close>





subsection \<open>Preparation\<close>
















section \<open>Network preparation\<close>




section \<open>All-pairs simulation\<close>

subsection \<open>Pairs\<close>

lemma set_pairs: "set (pairs n) = {(i, j). i < j \<and> j < n}"
proof (intro set_eqI iffI)
  fix p assume "p \<in> set (pairs n)"
  then show "p \<in> {(i, j). i < j \<and> j < n}" by (auto simp: pairs_def)
next
  fix p :: "nat \<times> nat" assume "p \<in> {(i, j). i < j \<and> j < n}"
  then obtain i j where p: "p = (i, j)" "i < j" "j < n" by auto
  then have "i \<in> {0..<n}" "(i, j) \<in> Pair i ` {Suc i..<n}" by auto
  with p show "p \<in> set (pairs n)" unfolding pairs_def by (simp add: image_iff)
qed

lemma distinct_pairs: "distinct (pairs n)"
  unfolding pairs_def
proof (rule distinct_concat)
  show "distinct (map (\<lambda>i. map (Pair i) [Suc i..<n]) [0..<n])"
    by (auto simp: distinct_map inj_on_def dest: map_eq_imp_length_eq)
next
  fix ys assume "ys \<in> set (map (\<lambda>i. map (Pair i) [Suc i..<n]) [0..<n])"
  then show "distinct ys" by (auto simp: distinct_map inj_on_def)
next
  fix ys zs assume "ys \<in> set (map (\<lambda>i. map (Pair i) [Suc i..<n]) [0..<n])"
    "zs \<in> set (map (\<lambda>i. map (Pair i) [Suc i..<n]) [0..<n])" "ys \<noteq> zs"
  then show "set ys \<inter> set zs = {}" by auto
qed

lemma sum_list_map_Suc:
  "(\<Sum>i\<leftarrow>xs. Suc (f i)) = (\<Sum>i\<leftarrow>xs. f i) + length xs"
  by (induction xs) simp_all

lemma length_pairs_Suc: "length (pairs (Suc n)) = length (pairs n) + n"
proof -
  have len: "length (pairs m) = (\<Sum>i\<leftarrow>[0..<m]. m - Suc i)" for m
    by (simp add: pairs_def length_concat comp_def)
  have m: "map (\<lambda>i. n - i) [0..<n] = map (\<lambda>i. Suc (n - Suc i)) [0..<n]"
    by (intro map_cong) auto
  have "length (pairs (Suc n)) = (\<Sum>i\<leftarrow>[0..<n]. n - i)"
    using len [of "Suc n"] by simp
  then have "length (pairs (Suc n)) = (\<Sum>i\<leftarrow>[0..<n]. Suc (n - Suc i))"
    by (simp only: m)
  also have "\<dots> = (\<Sum>i\<leftarrow>[0..<n]. n - Suc i) + n"
    by (simp add: sum_list_map_Suc)
  finally show ?thesis
    using len [of n] by simp
qed

lemma length_pairs: "length (pairs n) = n * (n - 1) div 2"
proof (induction n)
  case 0
  then show ?case by (simp add: pairs_def)
next
  case (Suc n)
  have "n * (n - 1) div 2 + n = Suc n * n div 2"
    by (cases n) simp_all
  with Suc show ?case by (simp add: length_pairs_Suc)
qed

lemma even_pred_product: "even (n * (n - 1 :: nat))"
  by (cases n) simp_all

lemma pred_product_strict_mono:
  assumes "j < n"
  shows "j * (j - 1) < n * (n - 1 :: nat) \<or> n = 1"
proof (cases "n \<le> 1")
  case True
  with assms show ?thesis by auto
next
  case False
  then have n: "0 < n - 1" by simp
  have "j * (j - 1) \<le> j * (n - 1)" using assms by (intro mult_le_mono2) simp
  also have "\<dots> < n * (n - 1)" using assms n by (intro mult_less_mono1) simp_all
  finally show ?thesis by simp
qed

lemma squareform_dim_pairs:
  assumes "1 \<le> n"
  shows "squareform_dim (n * (n - 1) div 2) = Inr n"
proof (cases "n = 1")
  case True
  then show ?thesis by (simp add: squareform_dim_def)
next
  case False
  with assms have n2: "2 \<le> n" by simp
  let ?s = "n * (n - 1) div 2"
  have two: "2 * ?s = n * (n - 1)" using even_pred_product [of n] by simp
  have "n - 1 \<le> ?s"
  proof -
    have "2 * (n - 1) \<le> n * (n - 1)" using n2 by (intro mult_le_mono1) simp
    then show ?thesis using two by linarith
  qed
  with n2 have pos: "?s \<noteq> 0" and lt: "n < ?s + 2" by simp_all
  define xs where "xs = [0..<?s + 2]"
  have len: "length xs = ?s + 2" by (simp add: xs_def)
  have nth: "xs ! m = m" if "m < ?s + 2" for m
    unfolding xs_def using that nth_upt [of 0 m "?s + 2"] by (simp only: add_0)
  have "find (\<lambda>d. d * (d - 1) = 2 * ?s) xs = Some n"
    unfolding find_Some_iff
  proof (intro exI [of _ n] conjI allI impI)
    show "n < length xs" using lt len by simp
    show "xs ! n * (xs ! n - 1) = 2 * ?s" using two by (simp only: nth [OF lt])
    show "n = xs ! n" by (simp only: nth [OF lt])
  next
    fix j assume j: "j < n"
    with lt have "j < ?s + 2" by simp
    then have "xs ! j = j" by (rule nth)
    moreover from pred_product_strict_mono [OF j] False have "j * (j - 1) \<noteq> 2 * ?s"
      using two by simp
    ultimately show "\<not> xs ! j * (xs ! j - 1) = 2 * ?s" by simp
  qed
  then have "find (\<lambda>d. d * (d - 1) = 2 * ?s) [0..<?s + 2] = Some n"
    by (simp only: xs_def)
  with pos show ?thesis by (simp add: squareform_dim_def)
qed

lemma squareform_Inr:
  assumes "1 \<le> n" and "length v = n * (n - 1) div 2"
  shows "squareform z v =
           Inr (map (\<lambda>i. map (\<lambda>j.
              case map_of (zip (pairs n) v) (min i j, max i j) of
                None \<Rightarrow> z
              | Some a \<Rightarrow> a) [0..<n]) [0..<n])"
  using squareform_dim_pairs [OF assms(1)] by (simp add: squareform_def assms(2))

lemma map_of_zip_pairs:
  assumes "length v = length (pairs n)" and "k < length v"
  shows "map_of (zip (pairs n) v) (pairs n ! k) = Some (v ! k)"
  using assms distinct_pairs [of n] by (simp add: map_of_zip_nth)

lemma map_of_zip_pairs_None:
  assumes "length v = length (pairs n)" and "p \<notin> set (pairs n)"
  shows "map_of (zip (pairs n) v) p = None"
  using assms by (auto simp: map_of_eq_None_iff dest: set_zip_leftD)

subsection \<open>Pairs in range\<close>

lemma compress_nth:
  "length m = length xs \<Longrightarrow>
     compress m xs = map ((!) xs) (filter ((!) m) [0..<length xs])"
proof (induction m xs rule: list_induct2)
  case Nil
  then show ?case by simp
next
  case (Cons b bs x xs)
  have "[0..<length (x # xs)] = 0 # map Suc [0..<length xs]"
    by (simp add: upt_conv_Cons map_Suc_upt del: upt_Suc)
  then show ?case
    using Cons by (simp add: filter_map comp_def del: upt_Suc)
qed

lemma np_where_filter: "np_where m = map int (filter ((!) m) [0..<length m])"
proof -
  have "compress m (map int [0..<length m])
      = map ((!) (map int [0..<length m])) (filter ((!) m) [0..<length (map int [0..<length m])])"
    by (rule compress_nth) simp
  also have "\<dots> = map int (filter ((!) m) [0..<length m])"
    by (intro map_cong) (auto simp del: upt_Suc)
  finally show ?thesis by (simp add: np_where_def del: upt_Suc)
qed

lemma compress_map_map: "compress (map q ks) (map g ks) = map g (filter q ks)"
  by (induction ks) simp_all

lemma in_range_block:
  assumes "length m = length ds"
  defines "D \<equiv> map ((!) ds) (filter ((!) m) [0..<length m])"
  shows "ebind (getitem ds (Arr (np_where m))) the_many = Inr D"
    and "mask_select (np_where m) (map (\<lambda>x. x < (bound::real)) D)
         = Inr (map int (filter (\<lambda>k. m ! k \<and> ds ! k < bound) [0..<length m]))"
proof -
  let ?ks = "filter ((!) m) [0..<length m]"
  have "\<forall>k \<in> set ?ks. k < length ds" using assms by auto
  then have "norm_indices (length ds) (map int ?ks) = Inr ?ks" by (rule norm_indices_map_int)
  then show "ebind (getitem ds (Arr (np_where m))) the_many = Inr D"
    by (simp add: getitem_def np_where_filter the_many_def D_def del: upt_Suc)
  have "mask_select (map int ?ks) (map (\<lambda>x. x < bound) (map ((!) ds) ?ks))
      = Inr (map int (filter (\<lambda>k. ds ! k < bound) ?ks))"
    using compress_map_map [of "\<lambda>k. ds ! k < bound" ?ks int]
    by (simp add: mask_select_def comp_def del: upt_Suc)
  then show "mask_select (np_where m) (map (\<lambda>x. x < bound) D)
         = Inr (map int (filter (\<lambda>k. m ! k \<and> ds ! k < bound) [0..<length m]))"
    by (simp add: np_where_filter D_def conj_commute del: upt_Suc)
qed

lemma main_sim_multi_in_range_Inr:
  assumes "length is_nlos = length (pdist (coordinates vehs))"
  shows "main_sim_multi_in_range vehs is_nlos mo mn cc =
           Inr (map (\<lambda>k. k < length is_nlos \<and>
                      (if is_nlos ! k then pdist (coordinates vehs) ! k < mn
                       else pdist (coordinates vehs) ! k < mo)) [0..<cc])"
proof -
  let ?ds = "pdist (coordinates vehs)"
  let ?n = "length is_nlos"
  have l: "length (map Not is_nlos) = length ?ds" using assms by simp
  note a = in_range_block(1) [OF l] in_range_block(2) [OF l, of mo]
  note b = in_range_block(1) [OF assms] in_range_block(2) [OF assms, of mn]
  let ?ol = "map int (filter (\<lambda>k. map Not is_nlos ! k \<and> ?ds ! k < mo) [0..<length (map Not is_nlos)])"
  let ?nl = "map int (filter (\<lambda>k. is_nlos ! k \<and> ?ds ! k < mn) [0..<?n])"
  have run: "main_sim_multi_in_range vehs is_nlos mo mn cc =
      Inr (map (\<lambda>k. int k \<in> set (?ol @ ?nl)) [0..<cc])"
    unfolding main_sim_multi_in_range_def Let_def a b ebind_Inr ..
  have "(int k \<in> set (?ol @ ?nl)) =
      (k < ?n \<and> (if is_nlos ! k then ?ds ! k < mn else ?ds ! k < mo))" for k
    by (auto simp del: upt_Suc)
  then show ?thesis unfolding run by simp
qed

subsection \<open>Components\<close>

lemma plain_bfs_rtrancl: "plain_bfs G v = {w. (v, w) \<in> (set (g_edges G))\<^sup>*}"
  by (auto simp: plain_bfs_def rtrancl_eq_or_trancl)

lemma plain_bfs_self: "v \<in> plain_bfs G v"
  by (simp add: plain_bfs_def)

lemma plain_bfs_same:
  assumes "sym (set (g_edges G))" and "w \<in> plain_bfs G v"
  shows "plain_bfs G w = plain_bfs G v"
proof -
  let ?R = "set (g_edges G)"
  from assms(2) have vw: "(v, w) \<in> ?R\<^sup>*" by (simp add: plain_bfs_rtrancl)
  from assms(1) have s: "sym (?R\<^sup>*)" by (rule sym_rtrancl)
  from s vw have wv: "(w, v) \<in> ?R\<^sup>*" by (rule symD)
  show ?thesis
    unfolding plain_bfs_rtrancl using vw wv by (auto intro: rtrancl_trans)
qed

lemma components_from_props:
  assumes "sym (set (g_edges G))" and "\<forall>x \<in> seen. plain_bfs G x \<subseteq> seen"
  shows "(\<forall>v \<in> set vs. v \<notin> seen \<longrightarrow> plain_bfs G v \<in> set (components_from G seen vs)) \<and>
         (\<forall>c \<in> set (components_from G seen vs). \<exists>v \<in> set vs. c = plain_bfs G v)"
  using assms(2)
proof (induction vs arbitrary: seen)
  case Nil
  then show ?case by simp
next
  case (Cons v vs)
  show ?case
  proof (cases "v \<in> seen")
    case True
    with Cons.IH [OF Cons.prems] show ?thesis by auto
  next
    case False
    let ?c = "plain_bfs G v"
    have closed: "\<forall>x \<in> seen \<union> ?c. plain_bfs G x \<subseteq> seen \<union> ?c"
      using Cons.prems plain_bfs_same [OF assms(1)] by blast
    note IH = Cons.IH [OF closed]
    have r: "components_from G seen (v # vs) = ?c # components_from G (seen \<union> ?c) vs"
      using False by (simp add: Let_def)
    have "plain_bfs G u \<in> set (components_from G seen (v # vs))"
      if "u \<in> set (v # vs)" "u \<notin> seen" for u
    proof (cases "u \<in> ?c")
      case True
      then have "plain_bfs G u = ?c" by (rule plain_bfs_same [OF assms(1)])
      then show ?thesis unfolding r by simp
    next
      case False
      with that plain_bfs_self [of v G] have "u \<in> set vs" "u \<notin> seen \<union> ?c" by auto
      with IH show ?thesis unfolding r by simp
    qed
    moreover have "\<exists>u \<in> set (v # vs). c = plain_bfs G u"
      if "c \<in> set (components_from G seen (v # vs))" for c
      using that IH unfolding r by auto
    ultimately show ?thesis by blast
  qed
qed

lemma max_first_props:
  "max_first c xs \<in> set (c # xs) \<and> (\<forall>x \<in> set (c # xs). card x \<le> card (max_first c xs))"
proof (induction xs arbitrary: c)
  case Nil
  then show ?case by simp
next
  case (Cons x xs)
  from Cons.IH [of "if card c < card x then x else c"] show ?case
    by (auto split: if_splits)
qed

lemma largest_component:
  assumes symm: "sym (set (g_edges G))" and ne: "g_nodes G \<noteq> []"
  shows "\<exists>C. max_by_len (connected_components G) = Inr C \<and>
           (\<exists>v \<in> set (g_nodes G). C = plain_bfs G v) \<and>
           (\<forall>v \<in> set (g_nodes G). card (plain_bfs G v) \<le> card C)"
proof -
  let ?cs = "connected_components G"
  from components_from_props [OF symm, of "{}" "g_nodes G"]
  have all: "\<forall>v \<in> set (g_nodes G). plain_bfs G v \<in> set ?cs"
    and each: "\<forall>c \<in> set ?cs. \<exists>v \<in> set (g_nodes G). c = plain_bfs G v"
    by (simp_all add: connected_components_def)
  from ne all obtain c cs where cs: "?cs = c # cs"
    by (cases ?cs) (auto simp: neq_Nil_conv)
  let ?C = "max_first c cs"
  from max_first_props [of c cs] cs have m: "?C \<in> set ?cs"
    and mx: "\<forall>x \<in> set ?cs. card x \<le> card ?C" by simp_all
  have "max_by_len ?cs = Inr ?C" by (simp add: max_by_len_def cs)
  moreover from each m have "\<exists>v \<in> set (g_nodes G). ?C = plain_bfs G v" by blast
  moreover from all mx have "\<forall>v \<in> set (g_nodes G). card (plain_bfs G v) \<le> card ?C" by blast
  ultimately show ?thesis by blast
qed

lemma plain_bfs_nodes:
  assumes "v \<in> N" and "\<forall>(a, b) \<in> set (g_edges G). b \<in> N"
  shows "plain_bfs G v \<subseteq> N"
proof
  fix w assume "w \<in> plain_bfs G v"
  then consider "w = v" | "(v, w) \<in> (set (g_edges G))\<^sup>+" by (auto simp: plain_bfs_def)
  then show "w \<in> N"
  proof cases
    case 1
    with assms show ?thesis by simp
  next
    case 2
    then have "w \<in> Range ((set (g_edges G))\<^sup>+)" by (rule RangeI)
    then have "w \<in> Range (set (g_edges G))" by (simp only: trancl_range)
    with assms(2) show ?thesis by auto
  qed
qed

subsection \<open>The graph of the pairs in range\<close>

lemma condensed_lookup:
  assumes len: "length flags = length (pairs n)"
  shows "(case map_of (zip (pairs n) flags) (min i j, max i j) of None \<Rightarrow> False | Some a \<Rightarrow> a)
         \<longleftrightarrow> (\<exists>k < length flags. flags ! k \<and> (pairs n ! k = (i, j) \<or> pairs n ! k = (j, i)))"
    (is "?L \<longleftrightarrow> ?R")
proof
  assume ?L
  then have "map_of (zip (pairs n) flags) (min i j, max i j) = Some True"
    by (auto split: option.splits)
  then have "((min i j, max i j), True) \<in> set (zip (pairs n) flags)" by (rule map_of_SomeD)
  then obtain k where k: "k < length flags" "pairs n ! k = (min i j, max i j)" "flags ! k"
    using len by (auto simp: in_set_zip)
  moreover have "(min i j, max i j) = (i, j) \<or> (min i j, max i j) = (j, i)"
    by (auto simp: min_def max_def)
  ultimately show ?R by metis
next
  assume ?R
  then obtain k where k: "k < length flags" "flags ! k"
    and p: "pairs n ! k = (i, j) \<or> pairs n ! k = (j, i)" by blast
  from k(1) len have "pairs n ! k \<in> set (pairs n)" by simp
  then have "fst (pairs n ! k) < snd (pairs n ! k)" by (auto simp: set_pairs)
  with p have "pairs n ! k = (min i j, max i j)" by (auto simp: min_def max_def)
  with map_of_zip_pairs [OF len k(1)] k(2) show ?L by simp
qed

lemma in_range_graph:
  assumes len: "length flags = length (pairs n)"
  defines "M \<equiv> map (\<lambda>i. map (\<lambda>j.
              case map_of (zip (pairs n) flags) (min i j, max i j) of
                None \<Rightarrow> False
              | Some a \<Rightarrow> a) [0..<n]) [0..<n]"
  shows "g_nodes (from_numpy_matrix M) = [0..<n]"
    and "set (g_edges (from_numpy_matrix M)) =
           {(i, j). \<exists>k < length flags. flags ! k \<and> (pairs n ! k = (i, j) \<or> pairs n ! k = (j, i))}"
proof -
  have lM: "length M = n" by (simp add: M_def)
  have row: "length (M ! i) = n" if "i < n" for i using that by (simp add: M_def)
  have ent: "M ! i ! j \<longleftrightarrow>
      (\<exists>k < length flags. flags ! k \<and> (pairs n ! k = (i, j) \<or> pairs n ! k = (j, i)))"
    if "i < n" "j < n" for i j
    using that condensed_lookup [OF len, of i j] by (simp add: M_def)
  show "g_nodes (from_numpy_matrix M) = [0..<n]" by (simp add: from_numpy_matrix_def lM)
  have bound: "i < n \<and> j < n"
    if "k < length flags" "pairs n ! k = (i, j) \<or> pairs n ! k = (j, i)" for i j k
  proof -
    from that(1) len have "pairs n ! k \<in> set (pairs n)" by simp
    with that(2) show ?thesis by (auto simp: set_pairs)
  qed
  have "set (g_edges (from_numpy_matrix M)) = {(i, j). i < n \<and> j < n \<and> M ! i ! j}"
    by (auto simp: from_numpy_matrix_def lM row)
  also have "\<dots> = {(i, j). \<exists>k < length flags. flags ! k \<and>
      (pairs n ! k = (i, j) \<or> pairs n ! k = (j, i))}"
    using ent bound by blast
  finally show "set (g_edges (from_numpy_matrix M)) =
           {(i, j). \<exists>k < length flags. flags ! k \<and> (pairs n ! k = (i, j) \<or> pairs n ! k = (j, i))}" .
qed

subsection \<open>The largest cluster\<close>

lemma main_sim_multi_cluster_Inr:
  assumes n: "1 \<le> n" and len: "length flags = n * (n - 1) div 2"
  defines "E \<equiv> {(i, j). \<exists>k < length flags. flags ! k \<and>
                   (pairs n ! k = (i, j) \<or> pairs n ! k = (j, i))}"
  shows "\<exists>C. main_sim_multi_cluster vehs flags n =
               Inr (real (card C) / real n,
                    add_key (add_key vehs ''cluster_max'' (Arr (map int (sorted_list_of_set C))))
                      ''not_cluster_max'' (Arr (map int (filter (\<lambda>i. i \<notin> C) [0..<n])))) \<and>
             (\<exists>v < n. C = {w. (v, w) \<in> E\<^sup>*}) \<and>
             (\<forall>v < n. card {w. (v, w) \<in> E\<^sup>*} \<le> card C) \<and>
             C \<subseteq> {0..<n} \<and> 1 \<le> card C \<and> card C \<le> n"
proof -
  let ?M = "map (\<lambda>i. map (\<lambda>j.
              case map_of (zip (pairs n) flags) (min i j, max i j) of
                None \<Rightarrow> False
              | Some a \<Rightarrow> a) [0..<n]) [0..<n]"
  let ?G = "from_numpy_matrix ?M"
  from len have len': "length flags = length (pairs n)" by (simp add: length_pairs)
  have sq: "squareform False flags = Inr ?M" using n len by (rule squareform_Inr)
  note g = in_range_graph [OF len']
  have nodes: "g_nodes ?G = [0..<n]" by (rule g(1))
  have edges: "set (g_edges ?G) = E" unfolding E_def by (rule g(2))
  have symm: "sym (set (g_edges ?G))" unfolding edges E_def sym_def by auto
  have ne: "g_nodes ?G \<noteq> []" using n nodes by simp
  have bfs: "plain_bfs ?G v = {w. (v, w) \<in> E\<^sup>*}" for v
    by (simp add: plain_bfs_rtrancl edges)
  from largest_component [OF symm ne] obtain C where
    mx: "max_by_len (connected_components ?G) = Inr C" and
    ex: "\<exists>v \<in> set (g_nodes ?G). C = plain_bfs ?G v" and
    all: "\<forall>v \<in> set (g_nodes ?G). card (plain_bfs ?G v) \<le> card C"
    by blast
  from ex obtain v where v: "v < n" "C = plain_bfs ?G v" by (auto simp: nodes)
  have rng: "\<forall>(a, b) \<in> set (g_edges ?G). b \<in> {0..<n}"
  proof -
    have "b < n" if "k < length flags" "pairs n ! k = (a, b) \<or> pairs n ! k = (b, a)" for a b k
    proof -
      from that(1) len' have "pairs n ! k \<in> set (pairs n)" by simp
      with that(2) show ?thesis by (auto simp: set_pairs)
    qed
    then show ?thesis unfolding edges E_def by auto
  qed
  from v have sub: "C \<subseteq> {0..<n}" using plain_bfs_nodes [OF _ rng, of v] by simp
  then have fin: "finite C" by (rule finite_subset) simp
  from sub have le: "card C \<le> n" using card_mono [of "{0..<n}" C] by simp
  from v have "v \<in> C" by (simp add: plain_bfs_self)
  with fin have ge: "1 \<le> card C" by (metis One_nat_def Suc_leI card_gt_0_iff empty_iff)
  from n have n0: "n \<noteq> 0" by simp
  have run: "main_sim_multi_cluster vehs flags n =
               Inr (real (card C) / real n,
                    add_key (add_key vehs ''cluster_max'' (Arr (map int (sorted_list_of_set C))))
                      ''not_cluster_max'' (Arr (map int (filter (\<lambda>i. i \<notin> C) [0..<n]))))"
    unfolding main_sim_multi_cluster_def sq ebind_Inr Let_def mx using n0 by simp
  from v have "\<exists>v < n. C = {w. (v, w) \<in> E\<^sup>*}" by (auto simp: bfs)
  moreover from all have "\<forall>v < n. card {w. (v, w) \<in> E\<^sup>*} \<le> card C"
    by (simp add: nodes bfs)
  ultimately show ?thesis using run sub ge le by blast
qed

subsection \<open>Connectivity of the network\<close>

lemma main_sim_multi_eq:
  fixes net :: "('g, 'b, 'w, 's) network"
  defines "vehs \<equiv> n_vehs net"
  defines "n \<equiv> count vehs"
  defines "cc \<equiv> n * (n - 1) div 2"
  defines "vehs1 \<equiv> vehs\<lparr>pathlosses := replicate cc (Fin 0), distances := replicate cc (Fin 0),
                          nlos := replicate cc False\<rparr>"
  shows "main_sim_multi ext net mo mn =
           ebind (main_sim_multi_in_range vehs1
                    (veh_cons_are_nlos_all ext (points vehs) (n_gdf_buildings net) (Some (max mn mo)))
                    mo mn cc)
             (\<lambda>is_in_range. main_sim_multi_cluster vehs1 is_in_range n)"
  by (simp add: main_sim_multi_def Let_def allocate_def np_zeros_def get_points_def
      the_many_def vehs_def n_def cc_def vehs1_def)

text \<open>
  C2: for a network of \<open>n \<ge> 1\<close> vehicles whose classifier returns one flag for each of the
  \<open>n (n - 1) / 2\<close> unordered pairs, \<open>main_sim_multi\<close> returns. Pair \<open>k\<close> of the condensed
  order is in range iff it is NLOS and its Euclidean distance is below \<open>max_dist_nlos\<close>, or
  it is OLOS/LOS and its distance is below \<open>max_dist_olos_los\<close>, both strictly. The
  returned ratio is \<open>|C| / n\<close> for a connected component \<open>C\<close> of the graph of the pairs in
  range that no other component exceeds in size; it lies in \<open>[0, 1]\<close>. The key
  \<open>cluster_max\<close> holds the vehicles of \<open>C\<close> and \<open>not_cluster_max\<close> exactly the vehicles
  outside \<open>C\<close>.
\<close>

theorem main_sim_multi_connectivity:
  fixes net :: "('g, 'b, 'w, 's) network" and ext :: "('g, 'b, 'w) ext"
    and max_dist_olos_los max_dist_nlos :: real
  defines "vehs \<equiv> n_vehs net"
  defines "n \<equiv> count vehs"
  defines "is_nlos \<equiv> veh_cons_are_nlos_all ext (points vehs) (n_gdf_buildings net)
                       (Some (max max_dist_nlos max_dist_olos_los))"
  defines "dists \<equiv> pdist (coordinates vehs)"
  assumes n: "1 \<le> n" and wf: "length (coordinates vehs) = n"
    and cls: "length is_nlos = n * (n - 1) div 2"
  shows "\<exists>flags C vehs'.
           main_sim_multi ext net max_dist_olos_los max_dist_nlos
             = Inr (real (card C) / real n, vehs') \<and>
           length flags = n * (n - 1) div 2 \<and> length dists = n * (n - 1) div 2 \<and>
           (\<forall>k < length flags.
              dists ! k = euclid (coordinates vehs ! fst (pairs n ! k))
                                 (coordinates vehs ! snd (pairs n ! k)) \<and>
              (flags ! k \<longleftrightarrow> (is_nlos ! k \<and> dists ! k < max_dist_nlos) \<or>
                             (\<not> is_nlos ! k \<and> dists ! k < max_dist_olos_los))) \<and>
           (\<exists>v < n. C = {w. (v, w) \<in>
              {(i, j). \<exists>k < length flags. flags ! k \<and>
                   (pairs n ! k = (i, j) \<or> pairs n ! k = (j, i))}\<^sup>*}) \<and>
           (\<forall>v < n. card {w. (v, w) \<in>
              {(i, j). \<exists>k < length flags. flags ! k \<and>
                   (pairs n ! k = (i, j) \<or> pairs n ! k = (j, i))}\<^sup>*} \<le> card C) \<and>
           C \<subseteq> {0..<n} \<and>
           0 \<le> real (card C) / real n \<and> real (card C) / real n \<le> 1 \<and>
           idxs vehs' ''cluster_max'' = Some (Arr (map int (sorted_list_of_set C))) \<and>
           idxs vehs' ''not_cluster_max'' = Some (Arr (map int (filter (\<lambda>i. i \<notin> C) [0..<n]))) \<and>
           set (filter (\<lambda>i. i \<notin> C) [0..<n]) = {0..<n} - C"
proof -
  let ?cc = "n * (n - 1) div 2"
  let ?vehs1 = "vehs\<lparr>pathlosses := replicate ?cc (Fin 0), distances := replicate ?cc (Fin 0),
                          nlos := replicate ?cc False\<rparr>"
  let ?flags = "map (\<lambda>k. k < length is_nlos \<and>
                      (if is_nlos ! k then dists ! k < max_dist_nlos
                       else dists ! k < max_dist_olos_los)) [0..<?cc]"
  have ld: "length dists = ?cc" by (simp add: dists_def pdist_def wf length_pairs)
  have c1: "coordinates ?vehs1 = coordinates vehs" by simp
  have "length is_nlos = length (pdist (coordinates ?vehs1))"
    using cls ld by (simp add: dists_def)
  from main_sim_multi_in_range_Inr [OF this, of max_dist_olos_los max_dist_nlos ?cc]
  have fl: "main_sim_multi_in_range ?vehs1 is_nlos max_dist_olos_los max_dist_nlos ?cc
      = Inr ?flags"
    by (simp only: c1 dists_def)
  have lf: "length ?flags = ?cc" by simp
  from main_sim_multi_cluster_Inr [OF n lf, of ?vehs1] obtain C where
    run: "main_sim_multi_cluster ?vehs1 ?flags n =
               Inr (real (card C) / real n,
                    add_key (add_key ?vehs1 ''cluster_max'' (Arr (map int (sorted_list_of_set C))))
                      ''not_cluster_max'' (Arr (map int (filter (\<lambda>i. i \<notin> C) [0..<n]))))" and
    ex: "\<exists>v < n. C = {w. (v, w) \<in>
              {(i, j). \<exists>k < length ?flags. ?flags ! k \<and>
                   (pairs n ! k = (i, j) \<or> pairs n ! k = (j, i))}\<^sup>*}" and
    all: "\<forall>v < n. card {w. (v, w) \<in>
              {(i, j). \<exists>k < length ?flags. ?flags ! k \<and>
                   (pairs n ! k = (i, j) \<or> pairs n ! k = (j, i))}\<^sup>*} \<le> card C" and
    sub: "C \<subseteq> {0..<n}" and ge: "1 \<le> card C" and le: "card C \<le> n"
    by blast
  let ?vehs' = "add_key (add_key ?vehs1 ''cluster_max'' (Arr (map int (sorted_list_of_set C))))
                      ''not_cluster_max'' (Arr (map int (filter (\<lambda>i. i \<notin> C) [0..<n])))"
  have main: "main_sim_multi ext net max_dist_olos_los max_dist_nlos
      = Inr (real (card C) / real n, ?vehs')"
    unfolding main_sim_multi_eq
    using fl run by (simp only: vehs_def [symmetric] n_def [symmetric] is_nlos_def [symmetric] ebind_Inr)
  have flags: "\<forall>k < length ?flags.
              dists ! k = euclid (coordinates vehs ! fst (pairs n ! k))
                                 (coordinates vehs ! snd (pairs n ! k)) \<and>
              (?flags ! k \<longleftrightarrow> (is_nlos ! k \<and> dists ! k < max_dist_nlos) \<or>
                             (\<not> is_nlos ! k \<and> dists ! k < max_dist_olos_los))"
  proof (intro allI impI)
    fix k assume "k < length ?flags"
    then have k: "k < ?cc" by simp
    then have "k < length (pairs n)" by (simp add: length_pairs)
    then have "dists ! k = euclid (coordinates vehs ! fst (pairs n ! k))
                                 (coordinates vehs ! snd (pairs n ! k))"
      by (simp add: dists_def pdist_def wf case_prod_beta)
    moreover have "?flags ! k \<longleftrightarrow> (is_nlos ! k \<and> dists ! k < max_dist_nlos) \<or>
                             (\<not> is_nlos ! k \<and> dists ! k < max_dist_olos_los)"
      using k cls by (simp del: upt_Suc)
    ultimately show "dists ! k = euclid (coordinates vehs ! fst (pairs n ! k))
                                 (coordinates vehs ! snd (pairs n ! k)) \<and>
              (?flags ! k \<longleftrightarrow> (is_nlos ! k \<and> dists ! k < max_dist_nlos) \<or>
                             (\<not> is_nlos ! k \<and> dists ! k < max_dist_olos_los))" ..
  qed
  have ratio: "0 \<le> real (card C) / real n" "real (card C) / real n \<le> 1"
    using n le by (simp_all add: divide_le_eq)
  have k1: "idxs ?vehs' ''cluster_max'' = Some (Arr (map int (sorted_list_of_set C)))"
    and k2: "idxs ?vehs' ''not_cluster_max'' = Some (Arr (map int (filter (\<lambda>i. i \<notin> C) [0..<n])))"
    by simp_all
  have compl: "set (filter (\<lambda>i. i \<notin> C) [0..<n]) = {0..<n} - C" by auto
  show ?thesis
    apply (rule exI [of _ ?flags], rule exI [of _ C], rule exI [of _ ?vehs'])
    using main lf ld flags ex all sub ratio k1 k2 compl by (intro conjI)
qed

lemma pairs_3: "pairs 3 = [(0, 1), (0, 2), (1, 2)]"
  by (simp add: pairs_def upt_conv_Cons)

lemma pairs_Suc3: "pairs (Suc (Suc (Suc 0))) = [(0, 1), (0, 2), (1, 2)]"
  using pairs_3 by (simp only: numeral_3_eq_3)

lemma ex_pdist: "pdist (coordinates ex_vehs) = [1, 5, 4]"
proof -
  have "sqrt 25 = sqrt (5\<^sup>2)" "sqrt 16 = sqrt (4\<^sup>2)" by simp_all
  then have "sqrt 25 = 5" "sqrt 16 = 4" by (simp_all only: real_sqrt_abs abs_numeral)
  then show ?thesis by (simp add: pdist_def ex_vehs_def pairs_Suc3 euclid_def)
qed

lemma ex_is_nlos:
  "veh_cons_are_nlos_all ex_ext_multi (points ex_vehs) u m = [False, True, True]"
  by (simp add: ex_ext_multi_def ex_ext_def ex_vehs_def pairs_Suc3)

lemma two_cycle_rtrancl:
  assumes "a \<noteq> b"
  shows "{w. (v, w) \<in> {(a, b), (b, a)}\<^sup>*} = (if v = a \<or> v = b then {a, b} else {v})"
proof -
  have 1: "(x, y) \<in> {(a, b), (b, a)}\<^sup>* \<Longrightarrow> y = x \<or> (x \<in> {a, b} \<and> y \<in> {a, b})" for x y
    by (induction rule: rtrancl_induct) auto
  have 2: "(a, b) \<in> {(a, b), (b, a)}\<^sup>*" "(b, a) \<in> {(a, b), (b, a)}\<^sup>*" by auto
  show ?thesis using 1 2 by (auto split: if_splits)
qed

lemma list3_eqI:
  "length xs = 3 \<Longrightarrow> xs ! 0 = a \<Longrightarrow> xs ! 1 = b \<Longrightarrow> xs ! 2 = c \<Longrightarrow> xs = [a, b, c]"
  by (cases xs; cases "tl xs"; cases "tl (tl xs)") (auto simp: numeral_3_eq_3 numeral_2_eq_2)

lemma ex_edges:
  "{(i, j). \<exists>k < length [True, False, False]. [True, False, False] ! k \<and>
       (pairs 3 ! k = (i, j) \<or> pairs 3 ! k = (j, i))} = {(0, 1), (1, 0)}"
  by (auto simp: pairs_3 less_Suc_eq nth_Cons')

text \<open>
  C2, witness: of the three example vehicles, at distances 1, 5 and 4, only the first two
  are in range of each other with the limits 2 (OLOS/LOS) and 3 (NLOS); the largest
  cluster is \<open>{0, 1}\<close> and the ratio is \<open>2 / 3\<close>.
\<close>

theorem main_sim_multi_connectivity_witness:
  "\<exists>vehs'. main_sim_multi ex_ext_multi ex_net 2 3 = Inr (2 / 3, vehs') \<and>
      idxs vehs' ''cluster_max'' = Some (Arr [0, 1]) \<and>
      idxs vehs' ''not_cluster_max'' = Some (Arr [2])"
proof -
  have n: "n_vehs ex_net = ex_vehs" "count ex_vehs = 3" "length (coordinates ex_vehs) = 3"
    "n_gdf_buildings ex_net = ()"
    by (simp_all add: ex_net_def ex_vehs_def)
  have h1: "1 \<le> count (n_vehs ex_net)" by (simp add: n)
  have h2: "length (coordinates (n_vehs ex_net)) = count (n_vehs ex_net)" by (simp add: n)
  have h3: "length (veh_cons_are_nlos_all ex_ext_multi (points (n_vehs ex_net))
                (n_gdf_buildings ex_net) (Some (max 3 2))) =
            count (n_vehs ex_net) * (count (n_vehs ex_net) - 1) div 2"
    by (simp add: n ex_is_nlos)
  from main_sim_multi_connectivity [OF h1 h2 h3, unfolded n ex_is_nlos ex_pdist]
  obtain flags C vehs' where
    run: "main_sim_multi ex_ext_multi ex_net 2 3 = Inr (real (card C) / real (3 :: nat), vehs')" and
    lf: "length flags = 3 * (3 - 1) div 2" and
    "length [1, 5, 4 :: real] = 3 * (3 - 1) div 2" and
    fl: "\<forall>k < length flags.
            [1, 5, 4] ! k = euclid (coordinates ex_vehs ! fst (pairs 3 ! k))
                                   (coordinates ex_vehs ! snd (pairs 3 ! k)) \<and>
            (flags ! k \<longleftrightarrow>
              ([False, True, True] ! k \<and> [1, 5, 4 :: real] ! k < 3) \<or>
              (\<not> [False, True, True] ! k \<and> [1, 5, 4 :: real] ! k < 2))" and
    ex: "\<exists>v < 3. C = {w. (v, w) \<in>
              {(i, j). \<exists>k < length flags. flags ! k \<and>
                   (pairs 3 ! k = (i, j) \<or> pairs 3 ! k = (j, i))}\<^sup>*}" and
    all: "\<forall>v < 3. card {w. (v, w) \<in>
              {(i, j). \<exists>k < length flags. flags ! k \<and>
                   (pairs 3 ! k = (i, j) \<or> pairs 3 ! k = (j, i))}\<^sup>*} \<le> card C" and
    "C \<subseteq> {0..<3}" and
    "0 \<le> real (card C) / real (3 :: nat)" and "real (card C) / real (3 :: nat) \<le> 1" and
    k1: "idxs vehs' ''cluster_max'' = Some (Arr (map int (sorted_list_of_set C)))" and
    k2: "idxs vehs' ''not_cluster_max'' = Some (Arr (map int (filter (\<lambda>i. i \<notin> C) [0..<3])))" and
    "set (filter (\<lambda>i. i \<notin> C) [0..<3]) = {0..<3} - C"
    apply -
    apply (erule exE)
    apply (erule exE)
    apply (erule exE)
    by (elim conjE)
  from lf have lf3: "length flags = 3" by simp
  have f0: "flags ! 0 = True" and f1: "flags ! 1 = False" and f2: "flags ! 2 = False"
    using fl [rule_format, of 0] fl [rule_format, of 1] fl [rule_format, of 2] lf3
    by simp_all
  have "flags = [True, False, False]"
    using lf3 f0 f1 f2 by (rule list3_eqI)
  note ex' = ex [unfolded this ex_edges] and all' = all [unfolded this ex_edges]
  have comp: "{w. (v, w) \<in> {(0, 1), (1, 0)}\<^sup>*} = (if v = 0 \<or> v = 1 then {0, 1} else {v})"
    for v :: nat
    by (rule two_cycle_rtrancl) simp
  from all' have "card {w. (0 :: nat, w) \<in> {(0, 1), (1, 0)}\<^sup>*} \<le> card C" by simp
  then have "card {0, 1 :: nat} \<le> card C" unfolding comp by simp
  then have big: "2 \<le> card C" by simp
  from ex' obtain v where "C = (if v = 0 \<or> v = 1 then {0, 1} else {v})"
    unfolding comp by blast
  with big have C: "C = {0, 1}" by (simp split: if_splits)
  have s: "sorted_list_of_set C = [0, 1]" "card C = 2"
    "filter (\<lambda>i. i \<notin> C) [0..<3] = [2]"
    by (simp_all add: C upt_conv_Cons)
  show ?thesis
    using run k1 k2 unfolding s by (intro exI [of _ vehs']) simp
qed

subsection \<open>The cutoff\<close>

lemma main_sim_multi_no_cutoff_eq:
  fixes net :: "('g, 'b, 'w, 's) network"
  defines "vehs \<equiv> n_vehs net"
  defines "n \<equiv> count vehs"
  defines "cc \<equiv> n * (n - 1) div 2"
  defines "vehs1 \<equiv> vehs\<lparr>pathlosses := replicate cc (Fin 0), distances := replicate cc (Fin 0),
                          nlos := replicate cc False\<rparr>"
  shows "main_sim_multi_no_cutoff ext net mo mn =
           ebind (main_sim_multi_in_range vehs1
                    (veh_cons_are_nlos_all ext (points vehs) (n_gdf_buildings net) None)
                    mo mn cc)
             (\<lambda>is_in_range. main_sim_multi_cluster vehs1 is_in_range n)"
  by (simp add: main_sim_multi_no_cutoff_def Let_def allocate_def np_zeros_def get_points_def
      the_many_def vehs_def n_def cc_def vehs1_def)

lemma length_nlos_all_spec [simp]:
  "length (veh_cons_are_nlos_all_spec crosses ps b m) = length (pairs (length ps))"
  by (simp add: veh_cons_are_nlos_all_spec_def)

lemma pdist_extract_nth:
  assumes "k < length (pairs (length ps))"
  shows "pdist (extract_point_array ps) ! k =
           euclid (px (ps ! fst (pairs (length ps) ! k)), py (ps ! fst (pairs (length ps) ! k)))
                  (px (ps ! snd (pairs (length ps) ! k)), py (ps ! snd (pairs (length ps) ! k)))"
proof -
  from assms have "pairs (length ps) ! k \<in> set (pairs (length ps))" by simp
  then have "fst (pairs (length ps) ! k) < length ps" "snd (pairs (length ps) ! k) < length ps"
    by (auto simp: set_pairs)
  with assms show ?thesis
    by (simp add: pdist_def extract_point_array_def case_prod_beta)
qed

lemma nlos_all_spec_nth:
  assumes "k < length (pairs (length ps))"
  shows "veh_cons_are_nlos_all_spec crosses ps b (Some m) ! k =
           (m < pdist (extract_point_array ps) ! k \<or>
            veh_cons_are_nlos_all_spec crosses ps b None ! k)"
  using assms
  by (simp add: pdist_extract_nth) (simp add: veh_cons_are_nlos_all_spec_def case_prod_beta)

lemma in_range_cutoff:
  assumes inv: "coordinates v = extract_point_array ps"
  shows "main_sim_multi_in_range v
           (veh_cons_are_nlos_all_spec crosses ps b (Some (max mn mo))) mo mn cc =
         main_sim_multi_in_range v (veh_cons_are_nlos_all_spec crosses ps b None) mo mn cc"
proof -
  let ?w = "veh_cons_are_nlos_all_spec crosses ps b (Some (max mn mo))"
  let ?o = "veh_cons_are_nlos_all_spec crosses ps b None"
  let ?d = "pdist (coordinates v)"
  have l: "length ?w = length ?d" "length ?o = length ?d"
    by (simp_all add: inv pdist_def extract_point_array_def)
  have "(k < length ?w \<and> (if ?w ! k then ?d ! k < mn else ?d ! k < mo)) =
        (k < length ?o \<and> (if ?o ! k then ?d ! k < mn else ?d ! k < mo))" for k
  proof (cases "k < length (pairs (length ps))")
    case True
    from nlos_all_spec_nth [OF True, of crosses b "max mn mo"]
    have "?w ! k = (max mn mo < ?d ! k \<or> ?o ! k)" by (simp only: inv)
    then show ?thesis by auto
  next
    case False
    then show ?thesis by simp
  qed
  then show ?thesis
    by (simp only: main_sim_multi_in_range_Inr [OF l(1)] main_sim_multi_in_range_Inr [OF l(2)])
qed

text \<open>
  C5: let the classifier be the one of the specification, and let the store hold the
  coordinates of its points. A pair whose distance is within the cutoff
  \<open>max(max_dist_nlos, max_dist_olos_los)\<close> gets the flag it gets without a cutoff. A pair
  beyond the cutoff is flagged NLOS and is below neither limit, whatever its flag. So
  the pairs in range are the same with and without the cutoff, and \<open>main_sim_multi\<close>
  returns what the simulation without a cutoff returns: the same ratio and store, or the
  same error.
\<close>

theorem cutoff_keeps_outcome:
  fixes net :: "('g, 'b, 'w, 's) network" and ext :: "('g, 'b, 'w) ext"
    and crosses :: "point \<Rightarrow> point \<Rightarrow> 'b \<Rightarrow> bool"
    and max_dist_olos_los max_dist_nlos :: real
  defines "vehs \<equiv> n_vehs net"
  defines "cutoff \<equiv> max max_dist_nlos max_dist_olos_los"
  defines "with_cutoff \<equiv>
    veh_cons_are_nlos_all_spec crosses (points vehs) (n_gdf_buildings net) (Some cutoff)"
  defines "without \<equiv>
    veh_cons_are_nlos_all_spec crosses (points vehs) (n_gdf_buildings net) None"
  defines "dists \<equiv> pdist (coordinates vehs)"
  assumes cls: "veh_cons_are_nlos_all ext = veh_cons_are_nlos_all_spec crosses"
    and inv: "coordinates vehs = extract_point_array (points vehs)"
  shows "length with_cutoff = length dists \<and> length without = length dists \<and>
         (\<forall>k < length dists. dists ! k \<le> cutoff \<longrightarrow> with_cutoff ! k = without ! k) \<and>
         (\<forall>k < length dists. cutoff < dists ! k \<longrightarrow>
            with_cutoff ! k \<and> \<not> dists ! k < max_dist_nlos \<and> \<not> dists ! k < max_dist_olos_los) \<and>
         (\<forall>count_cond.
            main_sim_multi_in_range vehs with_cutoff max_dist_olos_los max_dist_nlos count_cond =
            main_sim_multi_in_range vehs without max_dist_olos_los max_dist_nlos count_cond) \<and>
         main_sim_multi ext net max_dist_olos_los max_dist_nlos =
           main_sim_multi_no_cutoff ext net max_dist_olos_los max_dist_nlos"
proof -
  have l: "length dists = length (pairs (length (points vehs)))"
    by (simp add: dists_def inv pdist_def extract_point_array_def)
  have a: "length with_cutoff = length dists" "length without = length dists"
    by (simp_all add: l with_cutoff_def without_def)
  have nth: "with_cutoff ! k = (cutoff < dists ! k \<or> without ! k)" if "k < length dists" for k
  proof -
    from that have "k < length (pairs (length (points vehs)))" by (simp only: l)
    from nlos_all_spec_nth [OF this, of crosses "n_gdf_buildings net" cutoff]
    show ?thesis by (simp only: with_cutoff_def without_def dists_def inv)
  qed
  have b: "\<forall>k < length dists. dists ! k \<le> cutoff \<longrightarrow> with_cutoff ! k = without ! k"
    using nth by auto
  have c: "\<forall>k < length dists. cutoff < dists ! k \<longrightarrow>
            with_cutoff ! k \<and> \<not> dists ! k < max_dist_nlos \<and> \<not> dists ! k < max_dist_olos_los"
    using nth by (auto simp: cutoff_def)
  have d: "\<forall>count_cond.
            main_sim_multi_in_range vehs with_cutoff max_dist_olos_los max_dist_nlos count_cond =
            main_sim_multi_in_range vehs without max_dist_olos_los max_dist_nlos count_cond"
    unfolding with_cutoff_def without_def cutoff_def
    by (intro allI) (rule in_range_cutoff [OF inv])
  let ?cc = "count vehs * (count vehs - 1) div 2"
  let ?vehs1 = "vehs\<lparr>pathlosses := replicate ?cc (Fin 0), distances := replicate ?cc (Fin 0),
                          nlos := replicate ?cc False\<rparr>"
  have "coordinates ?vehs1 = extract_point_array (points vehs)" by (simp add: inv)
  from in_range_cutoff [OF this, of crosses "n_gdf_buildings net" max_dist_nlos max_dist_olos_los ?cc]
  have e: "main_sim_multi ext net max_dist_olos_los max_dist_nlos =
           main_sim_multi_no_cutoff ext net max_dist_olos_los max_dist_nlos"
    unfolding main_sim_multi_eq main_sim_multi_no_cutoff_eq cls vehs_def by simp
  from a b c d e show ?thesis by (intro conjI)
qed

lemma ex_spec_flags:
  "veh_cons_are_nlos_all_spec (\<lambda>p q b. False) (points ex_vehs) () (Some (max 3 2))
     = [False, True, True]"
  "veh_cons_are_nlos_all_spec (\<lambda>p q b. False) (points ex_vehs) () None
     = [False, False, False]"
proof -
  have "sqrt 25 = sqrt (5\<^sup>2)" "sqrt 16 = sqrt (4\<^sup>2)" by simp_all
  then have "sqrt 25 = 5" "sqrt 16 = 4" by (simp_all only: real_sqrt_abs abs_numeral)
  then show "veh_cons_are_nlos_all_spec (\<lambda>p q b. False) (points ex_vehs) () (Some (max 3 2))
     = [False, True, True]"
    by (simp add: veh_cons_are_nlos_all_spec_def ex_vehs_def pairs_Suc3 euclid_def)
  show "veh_cons_are_nlos_all_spec (\<lambda>p q b. False) (points ex_vehs) () None
     = [False, False, False]"
    by (simp add: veh_cons_are_nlos_all_spec_def ex_vehs_def pairs_Suc3)
qed

text \<open>
  C5, witness: with no building in the way and the limits 2 and 3, the cutoff 3 turns the
  two pairs at distances 5 and 4 into NLOS pairs. The flags differ, the pairs in range
  and the result of the simulation do not.
\<close>

theorem cutoff_keeps_outcome_witness:
  "veh_cons_are_nlos_all_spec (\<lambda>p q b. False) (points ex_vehs) () (Some (max 3 2))
     = [False, True, True] \<and>
   veh_cons_are_nlos_all_spec (\<lambda>p q b. False) (points ex_vehs) () None
     = [False, False, False] \<and>
   main_sim_multi_in_range ex_vehs [False, True, True] 2 3 3 =
     main_sim_multi_in_range ex_vehs [False, False, False] 2 3 3 \<and>
   main_sim_multi ex_ext_open ex_net 2 3 = main_sim_multi_no_cutoff ex_ext_open ex_net 2 3"
proof -
  have cls: "veh_cons_are_nlos_all ex_ext_open = veh_cons_are_nlos_all_spec (\<lambda>p q b. False)"
    by (simp add: ex_ext_open_def)
  have inv: "coordinates (n_vehs ex_net) = extract_point_array (points (n_vehs ex_net))"
    by (simp add: ex_net_def ex_vehs_def extract_point_array_def)
  have n: "n_vehs ex_net = ex_vehs" "n_gdf_buildings ex_net = ()"
    by (simp_all add: ex_net_def)
  note t = cutoff_keeps_outcome [OF cls inv, of 3 2, unfolded n ex_spec_flags]
  from t have 1: "main_sim_multi_in_range ex_vehs [False, True, True] 2 3 3 =
     main_sim_multi_in_range ex_vehs [False, False, False] 2 3 3" by blast
  from t have 2: "main_sim_multi ex_ext_open ex_net 2 3 =
     main_sim_multi_no_cutoff ex_ext_open ex_net 2 3" by blast
  from ex_spec_flags 1 2 show ?thesis by (intro conjI)
qed

end
